theory Spec2Isabelle
  imports Main "HOL-Library.Word" "HOL-Library.AList"
begin

unbundle bit_operations_syntax

section \<open>Function multi-versioning: the data model\<close>

text \<open>
  A shallow embedding of \<^verbatim>\<open>src/llvm-multiversioning.cpp\<close>. LLVM values are pointers in
  the source; here a function is identified by its address (a natural number), which is
  also what orders a \<^verbatim>\<open>std::set\<close> of function pointers.
\<close>

subsection \<open>Target flags\<close>

text \<open>
  Modelled from the spec: the flag constants of \<^verbatim>\<open>processor.h\<close>, which is not among the
  sources. The spec names the flag set (clone-all, clone-loop, clone-simd, clone-math,
  clone-cpu-dispatch, clone-float16); each flag is one bit of a 32-bit mask, all distinct.
\<close>

definition JL_TARGET_CLONE_ALL :: "32 word" where
  "JL_TARGET_CLONE_ALL = 2"

definition JL_TARGET_CLONE_MATH :: "32 word" where
  "JL_TARGET_CLONE_MATH = 4"

definition JL_TARGET_CLONE_LOOP :: "32 word" where
  "JL_TARGET_CLONE_LOOP = 8"

definition JL_TARGET_CLONE_SIMD :: "32 word" where
  "JL_TARGET_CLONE_SIMD = 16"

definition JL_TARGET_CLONE_CPU :: "32 word" where
  "JL_TARGET_CLONE_CPU = 256"

definition JL_TARGET_CLONE_FLOAT16 :: "32 word" where
  "JL_TARGET_CLONE_FLOAT16 = 512"

definition clone_mask :: "32 word" where
  "clone_mask = JL_TARGET_CLONE_LOOP OR JL_TARGET_CLONE_SIMD OR JL_TARGET_CLONE_MATH
     OR JL_TARGET_CLONE_CPU OR JL_TARGET_CLONE_FLOAT16"

subsection \<open>Instructions and function bodies, as the analyzer reads them\<close>

text \<open>\<^verbatim>\<open>StringRef::startswith\<close>.\<close>

fun startswith :: "string \<Rightarrow> string \<Rightarrow> bool" where
  "startswith s [] = True"
| "startswith [] (p # ps) = False"
| "startswith (c # cs) (p # ps) = (c = p \<and> startswith cs ps)"

text \<open>
  What \<^verbatim>\<open>getCalledFunction()\<close> gives for a direct call: the callee's name, and the answer
  of the external oracle \<^verbatim>\<open>always_have_fma(*callee)\<close> (\<open>None\<close> when it has no value).
\<close>

record callee_info =
  callee_name :: string
  always_have_fma :: "bool option"

text \<open>
  An operand refers to a function or to a global variable (directly or through a chain of
  constant expressions), to the pointer loaded from a global variable, or to anything else. The load instruction
  that the pass inserts before the user is folded into the operand: \<open>RLoad g tbaa inv\<close> is
  the result of a load from the global variable at address \<open>g\<close>, tagged with the constant
  TBAA node iff \<open>tbaa\<close> and with \<^verbatim>\<open>invariant.load\<close> iff \<open>inv\<close>.
\<close>

datatype oref = RFunc nat | RGlobal nat | RLoad nat bool bool | ROther

record operand =
  op_is_half :: bool
  op_ref :: oref

text \<open>
  \<open>CallInst v c\<close>: a call whose function type \<open>is_vector\<close> iff \<open>v\<close>, with called function
  \<open>c\<close> (\<open>None\<close> for an indirect call); \<open>StoreInst v\<close>: a store whose value operand has a
  vector type iff \<open>v\<close>.
\<close>

datatype inst_kind = CallInst bool "callee_info option" | StoreInst bool | RetInst | OtherInst

datatype tail_kind = TCK_None | TCK_Tail | TCK_MustTail

record inst =
  i_kind :: inst_kind
  i_type_is_vector :: bool
  i_fast_math_any :: bool
  i_tail :: tail_kind
  i_operands :: "operand list"

text \<open>
  A body: whether \<^verbatim>\<open>LoopInfo\<close> finds a loop, and the instructions of all basic blocks in
  order.
\<close>

record fbody =
  b_has_loop :: bool
  b_insts :: "inst list"

subsection \<open>Symbols and the program image\<close>

text \<open>\<open>InternalLinkage\<close> stands for the local linkages, \<open>OtherLinkage\<close> for the remaining ones.\<close>

datatype linkage = ExternalLinkage | InternalLinkage | OtherLinkage

datatype visibility = DefaultVisibility | HiddenVisibility

text \<open>
  What the pass reads of a function type: \<^verbatim>\<open>is_vector\<close> (a vector return or parameter
  type), \<^verbatim>\<open>isVarArg\<close>, a void return type, and for each parameter whether its type is
  half precision.
\<close>

record ftype =
  ft_is_vector :: bool
  ft_is_vararg :: bool
  ft_ret_void :: bool
  ft_params_half :: "bool list"

text \<open>
  A function symbol. \<open>f_body = None\<close> is a declaration. \<open>f_callees\<close> is the function's node
  of \<^verbatim>\<open>llvm::CallGraph\<close>, a library the pass takes as given: one entry per call record,
  \<open>None\<close> when the called node has no function (the external node).
\<close>

record func =
  f_addr :: nat
  f_name :: string
  f_type :: ftype
  f_linkage :: linkage
  f_visibility :: visibility
  f_attrs :: "(string \<times> string) list"
  f_body :: "fbody option"
  f_callees :: "nat option list"

text \<open>
  Constant expressions, as far as the pass builds or inspects them. \<open>CFunc\<close> and \<open>CGlobal\<close>
  are the address of a function or of a global variable (pointer casts are not kept).
\<close>

datatype cexpr =
    CNull
  | CInt32 "32 word"
  | CFunc nat
  | CGlobal nat
  | CPtrToInt cexpr
  | CAdd cexpr nat
  | CSub cexpr cexpr
  | CTrunc32 cexpr

text \<open>
  An initializer: the null value of a scalar type, the null value of an array type with
  \<open>n\<close> elements, a constant array, or any other aggregate given by its leaves with their
  byte offsets.
\<close>

datatype ginit = INull | IZero nat | IArray "cexpr list" | IAggr "(nat \<times> cexpr) list"

record gvar =
  g_addr :: nat
  g_name :: string
  g_linkage :: linkage
  g_visibility :: visibility
  g_constant :: bool
  g_init :: "ginit option"

record galias =
  a_addr :: nat
  a_name :: string
  a_linkage :: linkage
  a_visibility :: visibility
  a_aliasee :: cexpr

datatype mflag = MInt nat | MString string

record llmodule =
  m_name :: string
  m_funcs :: "func list"
  m_globals :: "gvar list"
  m_aliases :: "galias list"
  m_flags :: "(string \<times> mflag) list"

text \<open>\<^verbatim>\<open>jl_target_spec_t\<close>, without the serialized feature data.\<close>

record jl_target_spec =
  cpu_name :: string
  cpu_features :: string
  flags :: "32 word"
  base :: int

definition hasFnAttribute :: "func \<Rightarrow> string \<Rightarrow> bool" where
  "hasFnAttribute F k = (map_of (f_attrs F) k \<noteq> None)"

definition addFnAttr :: "string \<Rightarrow> string \<Rightarrow> func \<Rightarrow> func" where
  "addFnAttr k v F = F\<lparr>f_attrs := AList.update k v (f_attrs F)\<rparr>"

subsection \<open>Looking symbols up, and fresh addresses\<close>

definition find_func :: "llmodule \<Rightarrow> nat \<Rightarrow> func option" where
  "find_func M a = find (\<lambda>F. f_addr F = a) (m_funcs M)"

definition update_func :: "nat \<Rightarrow> (func \<Rightarrow> func) \<Rightarrow> llmodule \<Rightarrow> llmodule" where
  "update_func a g M = M\<lparr>m_funcs := map (\<lambda>F. if f_addr F = a then g F else F) (m_funcs M)\<rparr>"

definition find_gvar :: "llmodule \<Rightarrow> nat \<Rightarrow> gvar option" where
  "find_gvar M a = find (\<lambda>g. g_addr g = a) (m_globals M)"

text \<open>
  \<^verbatim>\<open>Module::getGlobalVariable(name)\<close>: the global variable of that name, unless it has
  local linkage.
\<close>

definition getGlobalVariable :: "llmodule \<Rightarrow> string \<Rightarrow> gvar option" where
  "getGlobalVariable M name =
     (case find (\<lambda>g. g_name g = name) (m_globals M) of
        None \<Rightarrow> None
      | Some g \<Rightarrow> if g_linkage g = InternalLinkage then None else Some g)"

text \<open>A new object gets an address that no object of its kind has.\<close>

definition fresh_addr :: "nat list \<Rightarrow> nat" where
  "fresh_addr xs = Suc (foldr max xs 0)"

definition new_func_addr :: "llmodule \<Rightarrow> nat" where
  "new_func_addr M = fresh_addr (map f_addr (m_funcs M))"

definition new_gvar_addr :: "llmodule \<Rightarrow> nat" where
  "new_gvar_addr M = fresh_addr (map g_addr (m_globals M))"

definition new_alias_addr :: "llmodule \<Rightarrow> nat" where
  "new_alias_addr M = fresh_addr (map a_addr (m_aliases M))"

text \<open>\<^verbatim>\<open>std::to_string\<close> of an unsigned number.\<close>

fun to_string :: "nat \<Rightarrow> string" where
  "to_string n =
     (if n < 10 then [''0123456789'' ! n] else to_string (n div 10) @ [''0123456789'' ! (n mod 10)])"

declare to_string.simps [simp del]

section \<open>The feature analyzer: \<^verbatim>\<open>collect_func_info\<close>\<close>

text \<open>The body of the instruction loop, up to the early-exit test (source lines 92 to 133).\<close>

definition scan_call :: "bool \<Rightarrow> callee_info option \<Rightarrow> 32 word \<times> bool \<Rightarrow> 32 word \<times> bool" where
  "scan_call fty_vec callee st =
     (let (flag, has_veccall) = st;
          (flag, has_veccall) =
            (if fty_vec then (flag OR JL_TARGET_CLONE_SIMD, True) else (flag, has_veccall));
          flag =
            (case callee of
               None \<Rightarrow> flag
             | Some c \<Rightarrow>
                 let name = callee_name c in
                 if startswith name ''llvm.muladd.'' \<or> startswith name ''llvm.fma.''
                 then flag OR JL_TARGET_CLONE_MATH
                 else if startswith name ''julia.cpu.''
                 then (if startswith name ''julia.cpu.have_fma.''
                       then (if always_have_fma c = None then flag OR JL_TARGET_CLONE_CPU
                             else flag)
                       else flag OR JL_TARGET_CLONE_CPU)
                 else flag)
      in (flag, has_veccall))"

definition scan_inst :: "inst \<Rightarrow> 32 word \<times> bool \<Rightarrow> 32 word \<times> bool" where
  "scan_inst I st =
     (let (flag, has_veccall) =
            (case i_kind I of
               CallInst fty_vec callee \<Rightarrow> scan_call fty_vec callee st
             | StoreInst val_vec \<Rightarrow>
                 (if val_vec then (fst st OR JL_TARGET_CLONE_SIMD, snd st) else st)
             | _ \<Rightarrow>
                 (if i_type_is_vector I then (fst st OR JL_TARGET_CLONE_SIMD, snd st) else st));
          flag = (if i_fast_math_any I then flag OR JL_TARGET_CLONE_MATH else flag);
          flag = (if list_ex op_is_half (i_operands I) then flag OR JL_TARGET_CLONE_FLOAT16
                  else flag)
      in (flag, has_veccall))"

text \<open>The instruction loop with its early return (source lines 90 to 139).\<close>

fun scan_insts :: "inst list \<Rightarrow> 32 word \<times> bool \<Rightarrow> 32 word \<times> bool" where
  "scan_insts [] st = st"
| "scan_insts (I # Is) st =
     (let (flag, has_veccall) = scan_inst I st in
      if has_veccall \<and> flag AND JL_TARGET_CLONE_SIMD \<noteq> 0 \<and> flag AND JL_TARGET_CLONE_MATH \<noteq> 0
      then (flag, has_veccall)
      else scan_insts Is (flag, has_veccall))"

text \<open>
  \<^verbatim>\<open>collect_func_info(F, has_veccall)\<close>: the flag mask returned, and the module-wide
  \<^verbatim>\<open>has_veccall\<close> as the call leaves it. \<open>sig_vec\<close> is \<^verbatim>\<open>is_vector(F.getFunctionType())\<close>.
\<close>

definition collect_func_info :: "bool \<Rightarrow> fbody \<Rightarrow> bool \<Rightarrow> 32 word \<times> bool" where
  "collect_func_info sig_vec B has_veccall =
     (let flag = (if b_has_loop B then JL_TARGET_CLONE_LOOP else 0);
          (flag, has_veccall) =
            (if sig_vec then (flag OR JL_TARGET_CLONE_SIMD, True) else (flag, has_veccall))
      in scan_insts (b_insts B) (flag, has_veccall))"

text \<open>
  The scan the spec compares the early exit with: the same per-instruction updates applied
  to every instruction of the body.
\<close>

definition full_scan_func_info :: "bool \<Rightarrow> fbody \<Rightarrow> bool \<Rightarrow> 32 word \<times> bool" where
  "full_scan_func_info sig_vec B has_veccall =
     (let flag = (if b_has_loop B then JL_TARGET_CLONE_LOOP else 0);
          (flag, has_veccall) =
            (if sig_vec then (flag OR JL_TARGET_CLONE_SIMD, True) else (flag, has_veccall))
      in foldl (\<lambda>st I. scan_inst I st) (flag, has_veccall) (b_insts B))"

section \<open>Clone bitmasks as attribute strings\<close>

text \<open>
  The clone set of a function is an \<^verbatim>\<open>APInt\<close> with one bit per target, kept in the module
  as the string attribute \<^verbatim>\<open>julia.mv.clones\<close>: written with \<^verbatim>\<open>toStringUnsigned(_, 16)\<close>,
  read back with the constructor \<^verbatim>\<open>APInt(numbits, str, 16)\<close>. Both belong to the LLVM
  library; the model follows their documented behaviour. A bitmask is a natural number,
  \<open>bit c i\<close> its bit \<open>i\<close>; the constructor's assertions are the \<open>None\<close> results.
\<close>

definition hex_char :: "nat \<Rightarrow> char" where
  "hex_char d = ''0123456789ABCDEF'' ! d"

fun toStringUnsigned :: "nat \<Rightarrow> string" where
  "toStringUnsigned n =
     (if n < 16 then [hex_char n] else toStringUnsigned (n div 16) @ [hex_char (n mod 16)])"

declare toStringUnsigned.simps [simp del]

definition getDigit :: "char \<Rightarrow> nat option" where
  "getDigit c =
     (let n = (of_char c :: nat) in
      if 48 \<le> n \<and> n \<le> 57 then Some (n - 48)
      else if 65 \<le> n \<and> n \<le> 70 then Some (n - 55)
      else if 97 \<le> n \<and> n \<le> 102 then Some (n - 87)
      else None)"

fun parse_digits :: "string \<Rightarrow> nat \<Rightarrow> nat option" where
  "parse_digits [] acc = Some acc"
| "parse_digits (c # cs) acc =
     (case getDigit c of None \<Rightarrow> None | Some d \<Rightarrow> parse_digits cs (acc * 16 + d))"

definition APInt_fromString :: "nat \<Rightarrow> string \<Rightarrow> nat option" where
  "APInt_fromString numbits str =
     (case str of
        [] \<Rightarrow> None
      | c # cs \<Rightarrow>
          let isNeg = (c = CHR ''-'');
              ds = (if c = CHR ''-'' \<or> c = CHR ''+'' then cs else str)
          in if ds = [] then None
             else if (length ds - 1) * 4 > numbits then None
             else (case parse_digits ds 0 of
                     None \<Rightarrow> None
                   | Some v \<Rightarrow>
                       Some (if isNeg then (2 ^ numbits - v mod 2 ^ numbits) mod 2 ^ numbits
                             else v mod 2 ^ numbits)))"

lemma getDigit_hex_char: "d < 16 \<Longrightarrow> getDigit (hex_char d) = Some d"
proof -
  assume "d < 16"
  then have "d \<in> {0, 1, 2, 3, 4, 5, 6, 7, 8, 9, 10, 11, 12, 13, 14, 15}" by simp arith
  then show ?thesis
    by (elim insertE emptyE) (simp_all add: hex_char_def getDigit_def)
qed

lemma parse_digits_append:
  "parse_digits (xs @ ys) acc = (case parse_digits xs acc of None \<Rightarrow> None | Some v \<Rightarrow> parse_digits ys v)"
  by (induction xs arbitrary: acc) (auto split: option.splits)

lemma parse_toStringUnsigned: "parse_digits (toStringUnsigned n) 0 = Some n"
proof (induction n rule: toStringUnsigned.induct)
  case (1 n)
  show ?case
  proof (cases "n < 16")
    case True
    then show ?thesis by (subst toStringUnsigned.simps) (simp add: getDigit_hex_char)
  next
    case False
    with 1 show ?thesis
      by (subst toStringUnsigned.simps) (simp add: parse_digits_append getDigit_hex_char)
  qed
qed

lemma toStringUnsigned_nonempty: "toStringUnsigned n \<noteq> []"
  by (subst toStringUnsigned.simps) simp

lemma length_toStringUnsigned: "0 < n \<Longrightarrow> 16 ^ (length (toStringUnsigned n) - 1) \<le> n"
proof (induction n rule: toStringUnsigned.induct)
  case (1 n)
  show ?case
  proof (cases "n < 16")
    case True
    with 1(2) show ?thesis by (subst toStringUnsigned.simps) simp
  next
    case False
    obtain k where k: "length (toStringUnsigned (n div 16)) = Suc k"
      using toStringUnsigned_nonempty[of "n div 16"] by (cases "toStringUnsigned (n div 16)") auto
    from False have "0 < n div 16" by simp
    with False 1(1) have "16 ^ (length (toStringUnsigned (n div 16)) - 1) \<le> n div 16" by simp
    with k have "(16::nat) ^ k \<le> n div 16" by simp
    then have "16 * (16::nat) ^ k \<le> n" by simp
    with False k show ?thesis
      by (subst toStringUnsigned.simps) simp
  qed
qed

lemma length_toStringUnsigned_0: "length (toStringUnsigned 0) = 1"
  by (subst toStringUnsigned.simps) simp

lemma hd_toStringUnsigned: "hd (toStringUnsigned n) \<noteq> CHR ''-'' \<and> hd (toStringUnsigned n) \<noteq> CHR ''+''"
proof -
  from parse_toStringUnsigned[of n] toStringUnsigned_nonempty[of n]
  obtain c cs where "toStringUnsigned n = c # cs" "getDigit c \<noteq> None"
    by (cases "toStringUnsigned n") (auto split: option.splits)
  then show ?thesis by (auto simp: getDigit_def)
qed

lemma APInt_roundtrip:
  assumes "v < 2 ^ n"
  shows "APInt_fromString n (toStringUnsigned v) = Some v"
proof -
  obtain c cs where s: "toStringUnsigned v = c # cs"
    using toStringUnsigned_nonempty[of v] by (cases "toStringUnsigned v") auto
  with hd_toStringUnsigned[of v] have c: "c \<noteq> CHR ''-''" "c \<noteq> CHR ''+''" by auto
  have len: "(length (toStringUnsigned v) - 1) * 4 \<le> n"
  proof (cases "v = 0")
    case True
    then show ?thesis by (simp add: length_toStringUnsigned_0)
  next
    case False
    then have "(16::nat) ^ (length (toStringUnsigned v) - 1) \<le> v"
      by (intro length_toStringUnsigned) simp
    also note assms
    finally have "(2::nat) ^ ((length (toStringUnsigned v) - 1) * 4) < 2 ^ n"
      by (simp add: power_mult mult.commute)
    then show ?thesis by simp
  qed
  with s c assms parse_toStringUnsigned[of v] show ?thesis
    by (simp add: APInt_fromString_def)
qed


section \<open>The clone-set propagator: \<^verbatim>\<open>annotate_module_clones\<close>\<close>

subsection \<open>The call-graph closure of one subtarget (source lines 175 to 210)\<close>

text \<open>
  A \<^verbatim>\<open>std::set\<close> of function pointers is a strictly sorted list of addresses: iteration
  visits it in ascending order. The call graph maps a function's address to its call
  records; a function that is not in the module has no records.
\<close>

type_synonym cgraph = "(nat \<times> nat option list) list"

definition call_graph :: "llmodule \<Rightarrow> cgraph" where
  "call_graph M = map (\<lambda>F. (f_addr F, f_callees F)) (m_funcs M)"

definition cg_node :: "cgraph \<Rightarrow> nat \<Rightarrow> nat option list" where
  "cg_node cg f = (case map_of cg f of None \<Rightarrow> [] | Some cs \<Rightarrow> cs)"

definition set_insert :: "nat \<Rightarrow> nat list \<Rightarrow> nat list" where
  "set_insert x xs = (if x \<in> set xs then xs else insort x xs)"

definition calling_clone :: "cgraph \<Rightarrow> nat list \<Rightarrow> nat \<Rightarrow> bool" where
  "calling_clone cg all_origs child =
     list_ex (\<lambda>c. case c of None \<Rightarrow> False | Some f2 \<Rightarrow> f2 \<in> set all_origs) (cg_node cg child)"

fun expand_children :: "cgraph \<Rightarrow> nat option list \<Rightarrow> nat list \<times> nat list \<Rightarrow> nat list \<times> nat list" where
  "expand_children cg [] st = st"
| "expand_children cg (None # cs) st = expand_children cg cs st"
| "expand_children cg (Some child # cs) (next_set, all_origs) =
     (if child \<in> set all_origs then expand_children cg cs (next_set, all_origs)
      else if \<not> calling_clone cg all_origs child then expand_children cg cs (next_set, all_origs)
      else expand_children cg cs (set_insert child next_set, set_insert child all_origs))"

fun expand_frontier :: "cgraph \<Rightarrow> nat list \<Rightarrow> nat list \<times> nat list \<Rightarrow> nat list \<times> nat list" where
  "expand_frontier cg [] st = st"
| "expand_frontier cg (orig_f # fs) st = expand_frontier cg fs (expand_children cg (cg_node cg orig_f) st)"

definition cg_targets :: "cgraph \<Rightarrow> nat set" where
  "cg_targets cg = {c. \<exists>cs \<in> snd ` set cg. Some c \<in> set cs}"

lemma finite_cg_targets: "finite (cg_targets cg)"
proof -
  have "cg_targets cg \<subseteq> (\<Union>cs \<in> snd ` set cg. the ` set cs)"
    by (force simp: cg_targets_def)
  moreover have "finite (\<Union>cs \<in> snd ` set cg. the ` set cs)" by simp
  ultimately show ?thesis by (rule finite_subset)
qed

lemma set_set_insert [simp]: "set (set_insert x xs) = insert x (set xs)"
  by (auto simp: set_insert_def set_insort_key)

lemma cg_node_targets: "Some c \<in> set (cg_node cg f) \<Longrightarrow> c \<in> cg_targets cg"
proof -
  assume a: "Some c \<in> set (cg_node cg f)"
  then obtain cs where cs: "map_of cg f = Some cs" "Some c \<in> set cs"
    by (cases "map_of cg f") (auto simp: cg_node_def)
  then have "(f, cs) \<in> set cg" by (auto dest: map_of_SomeD)
  then have "cs \<in> snd ` set cg" by force
  with cs show ?thesis by (auto simp: cg_targets_def)
qed

lemma expand_children_sets:
  assumes "expand_children cg cs (n, a) = (n', a')" "\<forall>c. Some c \<in> set cs \<longrightarrow> c \<in> U"
    "set n \<subseteq> set a"
  shows "set a' = set a \<union> set n' \<and> set n \<subseteq> set n' \<and> (set n' - set n) \<inter> set a = {}
     \<and> set n' - set n \<subseteq> U"
  using assms
proof (induction cg cs "(n, a)" arbitrary: n a rule: expand_children.induct)
  case (1 cg)
  then show ?case by auto
next
  case (2 cg cs)
  then show ?case by auto
next
  case (3 cg child cs next_set all_origs)
  show ?case
  proof (cases "child \<in> set all_origs \<or> \<not> calling_clone cg all_origs child")
    case True
    with 3 show ?thesis by (auto split: if_splits)
  next
    case False
    then have e: "expand_children cg cs (set_insert child next_set, set_insert child all_origs) = (n', a')"
      using 3(4) by simp
    have sub: "set (set_insert child next_set) \<subseteq> set (set_insert child all_origs)"
      using 3(6) by auto
    have U: "\<forall>c. Some c \<in> set cs \<longrightarrow> c \<in> U" using 3(5) by simp
    from False have "\<not> child \<in> set all_origs" "\<not> \<not> calling_clone cg all_origs child" by auto
    from 3(3)[OF this e U sub] 3(5,6) False
    show ?thesis by auto
  qed
qed

lemma expand_frontier_sets:
  assumes "expand_frontier cg fs (n, a) = (n', a')" "set n \<subseteq> set a"
  shows "set a' = set a \<union> set n' \<and> set n \<subseteq> set n' \<and> (set n' - set n) \<inter> set a = {}
     \<and> set n' - set n \<subseteq> cg_targets cg"
  using assms
proof (induction fs arbitrary: n a)
  case Nil
  then show ?case by auto
next
  case (Cons f fs)
  obtain n1 a1 where st: "expand_children cg (cg_node cg f) (n, a) = (n1, a1)"
    by (cases "expand_children cg (cg_node cg f) (n, a)")
  have U: "\<forall>c. Some c \<in> set (cg_node cg f) \<longrightarrow> c \<in> cg_targets cg"
    by (auto intro: cg_node_targets)
  note s1 = expand_children_sets[OF st U Cons.prems(2)]
  from Cons.prems(1) st have "expand_frontier cg fs (n1, a1) = (n', a')" by simp
  moreover from s1 Cons.prems(2) have "set n1 \<subseteq> set a1" by auto
  ultimately have s2: "set a' = set a1 \<union> set n' \<and> set n1 \<subseteq> set n' \<and> (set n' - set n1) \<inter> set a1 = {}
     \<and> set n' - set n1 \<subseteq> cg_targets cg" by (rule Cons.IH)
  from s1 s2 show ?case by auto
qed

lemma closure_loop_decreases:
  assumes ne: "cur_set \<noteq> []"
    and e: "expand_frontier cg cur_set ([], all_origs) = (next_set, all_origs')"
  shows "2 * card (cg_targets cg - set all_origs') + (if next_set = [] then 0 else 1)
       < 2 * card (cg_targets cg - set all_origs) + 1"
proof -
  from expand_frontier_sets[OF e] have s: "set all_origs' = set all_origs \<union> set next_set"
    "set next_set \<inter> set all_origs = {}" "set next_set \<subseteq> cg_targets cg" by auto
  show ?thesis
  proof (cases "next_set = []")
    case True
    with s show ?thesis by simp
  next
    case False
    then obtain y where y: "y \<in> set next_set" by (cases next_set) auto
    with s have "y \<in> cg_targets cg - set all_origs" "y \<notin> cg_targets cg - set all_origs'" by auto
    moreover from s have "cg_targets cg - set all_origs' \<subseteq> cg_targets cg - set all_origs" by auto
    ultimately have "cg_targets cg - set all_origs' \<subset> cg_targets cg - set all_origs" by blast
    then have "card (cg_targets cg - set all_origs') < card (cg_targets cg - set all_origs)"
      by (intro psubset_card_mono) (auto simp: finite_cg_targets)
    then show ?thesis by simp
  qed
qed

function closure_loop :: "cgraph \<Rightarrow> nat list \<Rightarrow> nat list \<Rightarrow> nat list" where
  "closure_loop cg cur_set all_origs =
     (if cur_set = [] then all_origs
      else case expand_frontier cg cur_set ([], all_origs) of
             (next_set, all_origs') \<Rightarrow> closure_loop cg next_set all_origs')"
  by pat_completeness auto
termination
proof (relation "measure (\<lambda>(cg, cur, a). 2 * card (cg_targets cg - set a) + (if cur = [] then 0 else 1))")
  fix cg :: cgraph and cur_set all_origs next_set all_origs' :: "nat list"
  assume "cur_set \<noteq> []" "(next_set, all_origs') = expand_frontier cg cur_set ([], all_origs)"
  then have "2 * card (cg_targets cg - set all_origs') + (if next_set = [] then 0 else 1)
       < 2 * card (cg_targets cg - set all_origs) + 1"
    by (intro closure_loop_decreases) auto
  with \<open>cur_set \<noteq> []\<close>
  show "((cg, next_set, all_origs'), (cg, cur_set, all_origs))
       \<in> measure (\<lambda>(cg, cur, a). 2 * card (cg_targets cg - set a) + (if cur = [] then 0 else 1))"
    by simp
qed simp


text \<open>\<^verbatim>\<open>sets[0]\<close> (source lines 169 to 174) and the set \<^verbatim>\<open>all_origs\<close> at the end of the loop.\<close>

definition seed_set :: "nat list \<Rightarrow> 32 word list \<Rightarrow> 32 word \<Rightarrow> nat list" where
  "seed_set origs func_infos flag =
     foldl (\<lambda>S (f, info). if info AND flag = 0 then S else set_insert f S) []
       (zip origs func_infos)"

definition clone_closure :: "cgraph \<Rightarrow> nat list \<Rightarrow> nat list" where
  "clone_closure cg seeds = closure_loop cg seeds seeds"

definition target_clone_set :: "cgraph \<Rightarrow> nat list \<Rightarrow> 32 word list \<Rightarrow> jl_target_spec \<Rightarrow> nat list" where
  "target_clone_set cg origs func_infos spec =
     clone_closure cg (seed_set origs func_infos (flags spec AND clone_mask))"

subsection \<open>The loop over the targets (source lines 150 to 218)\<close>

text \<open>
  \<^verbatim>\<open>func_infos\<close>: the analyzer runs over the definitions in module order and threads
  \<^verbatim>\<open>has_veccall\<close> through. A declaration is never passed in.
\<close>

fun collect_infos :: "func list \<Rightarrow> bool \<Rightarrow> 32 word list \<times> bool" where
  "collect_infos [] hv = ([], hv)"
| "collect_infos (F # Fs) hv =
     (case f_body F of
        None \<Rightarrow> collect_infos Fs hv
      | Some B \<Rightarrow>
          let (flag, hv) = collect_func_info (ft_is_vector (f_type F)) B hv;
              (infos, hv) = collect_infos Fs hv
          in (flag # infos, hv))"

record annot =
  clones :: "nat list"
  subtarget_cloned :: "bool list"
  check_relocs :: bool

definition annotate_target ::
  "cgraph \<Rightarrow> nat list \<Rightarrow> 32 word list \<Rightarrow> jl_target_spec list \<Rightarrow> annot \<Rightarrow> nat \<Rightarrow> annot" where
  "annotate_target cg origs func_infos specs st i =
     (if flags (specs ! i) AND JL_TARGET_CLONE_ALL \<noteq> 0
      then st\<lparr>clones := map (set_bit i) (clones st), check_relocs := True\<rparr>
      else
        let all_origs = target_clone_set cg origs func_infos (specs ! i)
        in st\<lparr>clones := map (\<lambda>(f, c). if f \<in> set all_origs then set_bit i c else c)
                            (zip origs (clones st)),
                subtarget_cloned := map (\<lambda>(f, b). f \<in> set all_origs \<or> b)
                            (zip origs (subtarget_cloned st))\<rparr>)"

definition annotate_targets ::
  "cgraph \<Rightarrow> nat list \<Rightarrow> 32 word list \<Rightarrow> jl_target_spec list \<Rightarrow> annot" where
  "annotate_targets cg origs func_infos specs =
     foldl (annotate_target cg origs func_infos specs)
       \<lparr>clones = replicate (length origs) 0,
        subtarget_cloned = replicate (length origs) False,
        check_relocs = False\<rparr>
       [1..<length specs]"

subsection \<open>Uses of a function, as \<^verbatim>\<open>ConstantUses\<close> enumerates them\<close>

text \<open>
  \<^verbatim>\<open>ConstantUses\<close> is declared outside the sources. The model gives what the pass reads of
  it: the instruction operands that refer to the function, and the global values (aliases
  and global variables) whose aliasee or initializer refers to it, aliases first, each
  in module order. A use in an initializer is a leaf, with its byte offset in the object;
  an array of pointers has its elements 8 bytes apart.
\<close>

fun uses_func :: "nat \<Rightarrow> cexpr \<Rightarrow> bool" where
  "uses_func f (CFunc g) = (f = g)"
| "uses_func f (CPtrToInt c) = uses_func f c"
| "uses_func f (CAdd c n) = uses_func f c"
| "uses_func f (CSub a b) = (uses_func f a \<or> uses_func f b)"
| "uses_func f (CTrunc32 c) = uses_func f c"
| "uses_func f _ = False"

fun init_leaves :: "ginit \<Rightarrow> (nat \<times> cexpr) list" where
  "init_leaves INull = []"
| "init_leaves (IZero n) = []"
| "init_leaves (IArray cs) = zip (map (\<lambda>i. 8 * i) [0..<length cs]) cs"
| "init_leaves (IAggr ls) = ls"

definition gvar_leaves :: "gvar \<Rightarrow> (nat \<times> cexpr) list" where
  "gvar_leaves g = (case g_init g of None \<Rightarrow> [] | Some i \<Rightarrow> init_leaves i)"

definition inst_uses_func :: "nat \<Rightarrow> inst \<Rightarrow> bool" where
  "inst_uses_func f I = list_ex (\<lambda>x. op_ref x = RFunc f) (i_operands I)"

definition has_inst_use :: "llmodule \<Rightarrow> nat \<Rightarrow> bool" where
  "has_inst_use M f =
     list_ex (\<lambda>G. case f_body G of None \<Rightarrow> False
                   | Some B \<Rightarrow> list_ex (inst_uses_func f) (b_insts B)) (m_funcs M)"

text \<open>
  A use by a global value: by the alias at an address, or by the leaf at an index of the
  initializer of the global variable at an address.
\<close>

datatype guse = UseAlias nat | UseGVar nat nat

definition gvar_uses :: "nat \<Rightarrow> gvar \<Rightarrow> guse list" where
  "gvar_uses f g =
     map (UseGVar (g_addr g))
       (filter (\<lambda>k. uses_func f (snd (gvar_leaves g ! k))) [0..<length (gvar_leaves g)])"

definition gv_uses :: "llmodule \<Rightarrow> nat \<Rightarrow> guse list" where
  "gv_uses M f =
     map (\<lambda>a. UseAlias (a_addr a)) (filter (\<lambda>a. uses_func f (a_aliasee a)) (m_aliases M))
     @ concat (map (gvar_uses f) (m_globals M))"

fun is_alias_use :: "guse \<Rightarrow> bool" where
  "is_alias_use (UseAlias a) = True"
| "is_alias_use (UseGVar g k) = False"

subsection \<open>The attributes (source lines 219 to 254)\<close>

definition mark_relocs :: "llmodule \<Rightarrow> bool \<Rightarrow> func \<Rightarrow> func" where
  "mark_relocs M sub F =
     (if sub \<and> has_inst_use M (f_addr F) then addFnAttr ''julia.mv.reloc'' '''' F
      else
        let uses = gv_uses M (f_addr F) in
        if uses \<noteq> [] then
          (if list_ex is_alias_use uses then addFnAttr ''julia.mv.reloc'' '''' F
           else addFnAttr ''julia.mv.fvar'' '''' F)
        else F)"

definition mark_clones :: "nat \<Rightarrow> func \<Rightarrow> func" where
  "mark_clones c F = (if c \<noteq> 0 then addFnAttr ''julia.mv.clones'' (toStringUnsigned c) F else F)"

text \<open>
  The \<open>j\<close>-th definition of the module is \<^verbatim>\<open>orig_funcs[j]\<close>: \<open>map_defs g Fs xs\<close> applies \<open>g\<close>
  to it with the \<open>j\<close>-th entry of \<open>xs\<close>, and leaves the declarations as they are.
\<close>

fun map_defs :: "('a \<Rightarrow> func \<Rightarrow> func) \<Rightarrow> func list \<Rightarrow> 'a list \<Rightarrow> func list" where
  "map_defs g [] xs = []"
| "map_defs g (F # Fs) xs =
     (if f_body F = None then F # map_defs g Fs xs
      else case xs of [] \<Rightarrow> F # Fs | x # xs' \<Rightarrow> g x F # map_defs g Fs xs')"

definition defined_funcs :: "llmodule \<Rightarrow> func list" where
  "defined_funcs M = filter (\<lambda>F. f_body F \<noteq> None) (m_funcs M)"

definition annotate_module_clones :: "jl_target_spec list \<Rightarrow> llmodule \<Rightarrow> llmodule" where
  "annotate_module_clones specs M =
     (let orig_funcs = defined_funcs M;
          origs = map f_addr orig_funcs;
          (func_infos, has_veccall) = collect_infos orig_funcs False;
          st = annotate_targets (call_graph M) origs func_infos specs;
          upd = (\<lambda>(c, sub) F. mark_clones c (if check_relocs st then mark_relocs M sub F else F))
      in M\<lparr>m_funcs := map_defs upd (m_funcs M) (zip (clones st) (subtarget_cloned st)),
            m_flags := (if has_veccall then m_flags M @ [(''julia.mv.veccall'', MInt 1)]
                        else m_flags M)\<rparr>)"

subsection \<open>What the closure loop guarantees\<close>


















subsection \<open>The seed set and the bits of the clone masks\<close>

lemma set_seed_set_foldl:
  "set (foldl (\<lambda>S (f, info). if info AND flag = 0 then S else set_insert f S) S0 zs)
     = set S0 \<union> {f. \<exists>info. (f, info) \<in> set zs \<and> info AND flag \<noteq> 0}"
  by (induction zs arbitrary: S0) auto

lemma set_seed_set:
  "set (seed_set origs func_infos flag)
     = {f. \<exists>info. (f, info) \<in> set (zip origs func_infos) \<and> info AND flag \<noteq> 0}"
  by (simp add: seed_set_def set_seed_set_foldl)

lemma length_clones_annotate_target:
  "length (clones st) = length origs \<Longrightarrow>
   length (clones (annotate_target cg origs func_infos specs st i)) = length origs"
  by (simp add: annotate_target_def Let_def)

lemma length_clones_foldl:
  "length (clones st) = length origs \<Longrightarrow>
   length (clones (foldl (annotate_target cg origs func_infos specs) st targets)) = length origs"
  by (induction targets arbitrary: st) (simp_all add: length_clones_annotate_target)

lemma bit_annotate_target:
  assumes "length (clones st) = length origs" "j < length origs"
  shows "bit (clones (annotate_target cg origs func_infos specs st k) ! j) i \<longleftrightarrow>
     bit (clones st ! j) i \<or>
     (i = k \<and> (flags (specs ! k) AND JL_TARGET_CLONE_ALL \<noteq> 0
               \<or> origs ! j \<in> set (target_clone_set cg origs func_infos (specs ! k))))"
  using assms by (auto simp: annotate_target_def Let_def bit_simps)

lemma bit_annotate_foldl:
  assumes "length (clones st) = length origs" "j < length origs"
  shows "bit (clones (foldl (annotate_target cg origs func_infos specs) st targets) ! j) i \<longleftrightarrow>
     bit (clones st ! j) i \<or>
     (i \<in> set targets \<and> (flags (specs ! i) AND JL_TARGET_CLONE_ALL \<noteq> 0
               \<or> origs ! j \<in> set (target_clone_set cg origs func_infos (specs ! i))))"
  using assms
proof (induction targets arbitrary: st)
  case Nil
  then show ?case by simp
next
  case (Cons k targets)
  have l: "length (clones (annotate_target cg origs func_infos specs st k)) = length origs"
    using Cons.prems by (simp add: length_clones_annotate_target)
  show ?case
    using Cons.IH[OF l Cons.prems(2)] bit_annotate_target[OF Cons.prems, of cg func_infos specs k i]
    by auto
qed

lemma bit_annotate_targets:
  assumes "j < length origs"
  shows "bit (clones (annotate_targets cg origs func_infos specs) ! j) i \<longleftrightarrow>
     0 < i \<and> i < length specs \<and>
     (flags (specs ! i) AND JL_TARGET_CLONE_ALL \<noteq> 0
      \<or> origs ! j \<in> set (target_clone_set cg origs func_infos (specs ! i)))"
  unfolding annotate_targets_def
  using bit_annotate_foldl[of "\<lparr>clones = replicate (length origs) 0,
        subtarget_cloned = replicate (length origs) False,
        check_relocs = False\<rparr>" origs j cg func_infos specs "[1..<length specs]" i] assms
  by auto

lemma length_collect_infos:
  "length (fst (collect_infos Fs hv)) = length (filter (\<lambda>F. f_body F \<noteq> None) Fs)"
proof (induction Fs arbitrary: hv)
  case Nil
  then show ?case by simp
next
  case (Cons F Fs)
  show ?case
  proof (cases "f_body F")
    case None
    with Cons show ?thesis by simp
  next
    case (Some B)
    obtain flag hv1 where a: "collect_func_info (ft_is_vector (f_type F)) B hv = (flag, hv1)"
      by (cases "collect_func_info (ft_is_vector (f_type F)) B hv")
    obtain infos hv2 where b: "collect_infos Fs hv1 = (infos, hv2)"
      by (cases "collect_infos Fs hv1")
    from Cons[of hv1] b have "length infos = length (filter (\<lambda>F. f_body F \<noteq> None) Fs)"
      by simp
    with Some a b show ?thesis by simp
  qed
qed

lemma length_infos_defined:
  "length (fst (collect_infos (defined_funcs M) hv)) = length (defined_funcs M)"
  by (simp add: length_collect_infos defined_funcs_def)

lemma set_seed_set_nth:
  assumes "length func_infos = length origs"
  shows "set (seed_set origs func_infos flag)
     = {origs ! k | k. k < length origs \<and> func_infos ! k AND flag \<noteq> 0}"
  using assms by (auto simp: set_seed_set set_zip)

section \<open>The pass: \<^verbatim>\<open>CloneCtx\<close>\<close>

text \<open>
  The pass aborts the process on a failed assertion, on \<^verbatim>\<open>cast\<close> of a value of the wrong
  class and on \<^verbatim>\<open>abort()\<close>: the model is the build with assertions enabled. An abort is a
  value: the failed check, and the module as the pass has left it at that moment. Reads
  that the source does without a check and that would be out of bounds are aborts too.
\<close>

datatype abort = Abort string llmodule

subsection \<open>The context (source lines 257 to 323)\<close>

text \<open>
  A value map keeps, of \<^verbatim>\<open>ValueToValueMapTy\<close>, the entries whose keys are functions.
\<close>

record target =
  idx :: nat
  vmap :: "(nat \<times> nat) list"

record group = target +
  grp_clones :: "target list"

text \<open>
  \<^verbatim>\<open>linearized\<close> holds pointers into \<^verbatim>\<open>groups\<close>: to a group, or to a clone of a group.
\<close>

datatype tref = TGroup nat | TClone nat nat

record clone_ctx =
  c_specs :: "jl_target_spec list"
  c_groups :: "group list"
  c_linearized :: "tref list"
  c_fvars :: "nat list"
  c_gvars :: "cexpr list"
  c_func_ids :: "(nat \<times> nat) list"
  c_orig_funcs :: "nat list"
  c_cloned :: "nat list"
  c_gv_relocs :: "(cexpr \<times> nat) list"
  c_const_relocs :: "(nat \<times> nat) list"
  c_extern_relocs :: "(nat \<times> nat) list"
  c_allow_bad_fvars :: bool

text \<open>\<^verbatim>\<open>map_get\<close>: an identity entry counts as missing.\<close>

definition map_get :: "(nat \<times> nat) list \<Rightarrow> nat \<Rightarrow> nat option" where
  "map_get vm key =
     (case map_of vm key of None \<Rightarrow> None | Some val \<Rightarrow> if key = val then None else Some val)"

text \<open>
  \<^verbatim>\<open>Group::base_func\<close>; \<open>None\<close> is the failing \<^verbatim>\<open>cast\<close> of a missing entry.
\<close>

definition base_func :: "group \<Rightarrow> nat \<Rightarrow> nat option" where
  "base_func grp orig_f = (if idx grp = 0 then Some orig_f else map_of (vmap grp) orig_f)"

definition has_subtarget_clone :: "group \<Rightarrow> nat \<Rightarrow> bool option" where
  "has_subtarget_clone grp orig_f =
     (case base_func grp orig_f of
        None \<Rightarrow> None
      | Some b \<Rightarrow> Some (list_ex (\<lambda>clone. map_get (vmap clone) b \<noteq> None) (grp_clones grp)))"

definition get_func_id :: "clone_ctx \<Rightarrow> nat \<Rightarrow> nat option" where
  "get_func_id ctx F = (case map_of (c_func_ids ctx) F of None \<Rightarrow> None | Some n \<Rightarrow> Some (n - 1))"

text \<open>Running a step over a list, stopping at the first abort.\<close>

fun fold_abort :: "('a \<Rightarrow> 's \<Rightarrow> abort + 's) \<Rightarrow> 'a list \<Rightarrow> 's \<Rightarrow> abort + 's" where
  "fold_abort step [] s = Inr s"
| "fold_abort step (x # xs) s =
     (case step x s of Inl e \<Rightarrow> Inl e | Inr s' \<Rightarrow> fold_abort step xs s')"

subsection \<open>\<^verbatim>\<open>consume_gv\<close> (source lines 325 to 359)\<close>

text \<open>
  The elements are read after \<^verbatim>\<open>stripPointerCasts\<close>. \<open>is_fn\<close> tells the instance: for
  \<^verbatim>\<open>consume_gv<Function>\<close> an element has the class iff it is a function; for
  \<^verbatim>\<open>consume_gv<Constant>\<close> every element has it.
\<close>

fun isa_T :: "bool \<Rightarrow> cexpr \<Rightarrow> bool" where
  "isa_T True (CFunc f) = True"
| "isa_T True c = False"
| "isa_T False c = True"

fun is_declaration_ref :: "llmodule \<Rightarrow> cexpr \<Rightarrow> bool" where
  "is_declaration_ref M (CFunc f) =
     (case find_func M f of None \<Rightarrow> False | Some F \<Rightarrow> f_body F = None)"
| "is_declaration_ref M c = False"

text \<open>
  The \<^verbatim>\<open>while\<close> loop of lines 343 to 351. On an element that \<^verbatim>\<open>allow_bad_fvars\<close> rejects
  the loop lowers \<^verbatim>\<open>nele\<close> and reads the same index again.
\<close>

function consume_loop ::
  "bool \<Rightarrow> llmodule \<Rightarrow> bool \<Rightarrow> cexpr list \<Rightarrow> nat \<Rightarrow> nat \<Rightarrow> cexpr list \<Rightarrow> abort + cexpr list" where
  "consume_loop is_fn M allow_bad ary i nele res =
     (if i < nele then
        let val = ary ! i in
        if allow_bad \<and> (\<not> isa_T is_fn val \<or> is_declaration_ref M val)
        then consume_loop is_fn M allow_bad ary i (nele - 1) res
        else if \<not> isa_T is_fn val then Inl (Abort ''cast<T>(val)'' M)
        else consume_loop is_fn M allow_bad ary (i + 1) nele (res[i := val])
      else Inr (take nele res))"
  by pat_completeness auto
termination
  by (relation "measure (\<lambda>(is_fn, M, allow_bad, ary, i, nele, res). nele - i)") auto

declare consume_loop.simps [simp del]

text \<open>
  No use of the global variable is left: no operand, aliasee or initializer refers to it.
\<close>

fun uses_gvar :: "nat \<Rightarrow> cexpr \<Rightarrow> bool" where
  "uses_gvar g (CGlobal h) = (g = h)"
| "uses_gvar g (CPtrToInt c) = uses_gvar g c"
| "uses_gvar g (CAdd c n) = uses_gvar g c"
| "uses_gvar g (CSub a b) = (uses_gvar g a \<or> uses_gvar g b)"
| "uses_gvar g (CTrunc32 c) = uses_gvar g c"
| "uses_gvar g _ = False"

definition gvar_leaves_of :: "gvar \<Rightarrow> cexpr list" where
  "gvar_leaves_of g =
     (case g_init g of
        None \<Rightarrow> [] | Some INull \<Rightarrow> [] | Some (IZero n) \<Rightarrow> []
      | Some (IArray cs) \<Rightarrow> cs | Some (IAggr ls) \<Rightarrow> map snd ls)"

definition use_empty :: "llmodule \<Rightarrow> nat \<Rightarrow> bool" where
  "use_empty M g =
     (\<not> list_ex (\<lambda>a. uses_gvar g (a_aliasee a)) (m_aliases M)
      \<and> \<not> list_ex (\<lambda>h. list_ex (uses_gvar g) (gvar_leaves_of h)) (m_globals M)
      \<and> \<not> list_ex (\<lambda>F. case f_body F of None \<Rightarrow> False
            | Some B \<Rightarrow> list_ex (\<lambda>I. list_ex (\<lambda>x. op_ref x = RGlobal g) (i_operands I)) (b_insts B))
          (m_funcs M))"

definition eraseFromParent :: "nat \<Rightarrow> llmodule \<Rightarrow> llmodule" where
  "eraseFromParent g M = M\<lparr>m_globals := filter (\<lambda>h. g_addr h \<noteq> g) (m_globals M)\<rparr>"

text \<open>
  The elements of the initializer (lines 332 to 353). The element count is an
  \<^verbatim>\<open>unsigned\<close>, 32 bits wide.
\<close>

definition consume_elems :: "bool \<Rightarrow> llmodule \<Rightarrow> bool \<Rightarrow> ginit \<Rightarrow> abort + cexpr list" where
  "consume_elems is_fn M allow_bad init =
     (case init of
        INull \<Rightarrow> Inl (Abort ''cast<ArrayType>'' M)
      | IAggr ls \<Rightarrow> Inl (Abort ''cast<ArrayType>'' M)
      | IZero n \<Rightarrow>
          (if is_fn \<and> 0 < n mod 2 ^ 32 then Inl (Abort ''cast<T>(null)'' M)
           else Inr (replicate (n mod 2 ^ 32) CNull))
      | IArray ary \<Rightarrow>
          (let nele = length ary mod 2 ^ 32
           in consume_loop is_fn M allow_bad ary 0 nele (replicate nele CNull)))"

definition consume_gv :: "bool \<Rightarrow> llmodule \<Rightarrow> string \<Rightarrow> bool \<Rightarrow> abort + (cexpr list \<times> llmodule)" where
  "consume_gv is_fn M name allow_bad =
     (case getGlobalVariable M name of
        None \<Rightarrow> Inl (Abort ''gv && gv->hasInitializer()'' M)
      | Some gv \<Rightarrow>
          (case g_init gv of
             None \<Rightarrow> Inl (Abort ''gv && gv->hasInitializer()'' M)
           | Some init \<Rightarrow>
               (case consume_elems is_fn M allow_bad init of
                  Inl e \<Rightarrow> Inl e
                | Inr res \<Rightarrow>
                    if \<not> use_empty M (g_addr gv) then Inl (Abort ''gv->use_empty()'' M)
                    else Inr (res, eraseFromParent (g_addr gv) M))))"

subsection \<open>The constructor (source lines 361 to 400)\<close>

text \<open>
  The loop over the targets: a clone-all target opens a group; any other target joins the
  group of its base, which the assertion requires to be an earlier target.
\<close>

definition add_clone :: "nat \<Rightarrow> nat \<Rightarrow> group list \<Rightarrow> group list" where
  "add_clone g i grps =
     grps[g := (grps ! g)\<lparr>grp_clones := grp_clones (grps ! g) @ [\<lparr>idx = i, vmap = []\<rparr>]\<rparr>]"

definition group_target ::
  "jl_target_spec list \<Rightarrow> nat \<Rightarrow> group list \<times> nat list \<Rightarrow> string + group list \<times> nat list" where
  "group_target specs i st =
     (let (grps, group_ids) = st; spec = specs ! i in
      if flags spec AND JL_TARGET_CLONE_ALL \<noteq> 0
      then Inr (grps @ [\<lparr>idx = i, vmap = [], grp_clones = []\<rparr>], group_ids[i := length grps])
      else if \<not> (0 \<le> base spec \<and> nat (base spec) < i)
      then Inl ''0 <= spec.base && (unsigned) spec.base < i''
      else let g = group_ids ! nat (base spec)
           in Inr (add_clone g i grps, group_ids[i := g]))"

fun group_targets ::
  "jl_target_spec list \<Rightarrow> nat list \<Rightarrow> group list \<times> nat list \<Rightarrow> string + group list \<times> nat list" where
  "group_targets specs [] st = Inr st"
| "group_targets specs (i # targets) st =
     (case group_target specs i st of Inl e \<Rightarrow> Inl e | Inr st' \<Rightarrow> group_targets specs targets st')"

definition linearize_group :: "tref list \<Rightarrow> nat \<times> group \<Rightarrow> tref list" where
  "linearize_group lin gi =
     (let (g, grp) = gi;
          lin = foldl (\<lambda>lin (c, tgt). lin[idx tgt := TClone g c]) lin (enumerate 0 (grp_clones grp))
      in lin[idx grp := TGroup g])"

definition linearize :: "nat \<Rightarrow> group list \<Rightarrow> tref list" where
  "linearize n grps = foldl linearize_group (replicate n (TGroup 0)) (enumerate 0 grps)"

definition make_func_ids :: "nat list \<Rightarrow> (nat \<times> nat) list" where
  "make_func_ids fvars = foldl (\<lambda>m (i, f). AList.update f (i + 1) m) [] (enumerate 0 fvars)"

definition in_orig_funcs :: "func \<Rightarrow> bool" where
  "in_orig_funcs F = (\<not> (f_body F = None \<and> \<not> hasFnAttribute F ''julia.mv.clones''))"

definition the_funcs :: "cexpr list \<Rightarrow> nat list" where
  "the_funcs cs = concat (map (\<lambda>c. case c of CFunc f \<Rightarrow> [f] | _ \<Rightarrow> []) cs)"

text \<open>
  The member initializers run first, in the order of the members: the two export tables
  are consumed, \<^verbatim>\<open>jl_fvars\<close> before \<^verbatim>\<open>jl_gvars\<close>. Then the body of the constructor.
\<close>

definition CloneCtx :: "jl_target_spec list \<Rightarrow> llmodule \<Rightarrow> bool \<Rightarrow> abort + clone_ctx \<times> llmodule" where
  "CloneCtx specs M allow_bad =
     (case consume_gv True M ''jl_fvars'' allow_bad of
        Inl e \<Rightarrow> Inl e
      | Inr (fv, M1) \<Rightarrow>
     (case consume_gv False M1 ''jl_gvars'' False of
        Inl e \<Rightarrow> Inl e
      | Inr (gv, M2) \<Rightarrow>
     if specs = [] then Inl (Abort ''linearized[0]'' M2)
     else
     (case group_targets specs [1..<length specs]
             ([\<lparr>idx = 0, vmap = [], grp_clones = []\<rparr>], replicate (length specs) 0) of
        Inl e \<Rightarrow> Inl (Abort e M2)
      | Inr (grps, group_ids) \<Rightarrow>
          Inr (\<lparr>c_specs = specs, c_groups = grps,
                c_linearized = linearize (length specs) grps,
                c_fvars = the_funcs fv, c_gvars = gv,
                c_func_ids = make_func_ids (the_funcs fv),
                c_orig_funcs = map f_addr (filter in_orig_funcs (m_funcs M2)),
                c_cloned = [], c_gv_relocs = [], c_const_relocs = [], c_extern_relocs = [],
                c_allow_bad_fvars = allow_bad\<rparr>, M2))))"

subsection \<open>\<^verbatim>\<open>prepare_slots\<close> (source lines 416 to 432)\<close>

text \<open>
  A relocation slot is a global variable of the function's pointer type, not constant,
  named after the function. For a declaration: external linkage, no initializer, entered
  in \<^verbatim>\<open>extern_relocs\<close> under the function. For a definition: internal linkage, null
  initializer, hidden visibility, entered in \<^verbatim>\<open>const_relocs\<close> under the function's id.
\<close>

definition extern_slot :: "nat \<Rightarrow> func \<Rightarrow> gvar" where
  "extern_slot a F =
     \<lparr>g_addr = a, g_name = f_name F @ ''.reloc_slot'', g_linkage = ExternalLinkage,
      g_visibility = DefaultVisibility, g_constant = False, g_init = None\<rparr>"

definition const_slot :: "nat \<Rightarrow> func \<Rightarrow> gvar" where
  "const_slot a F =
     \<lparr>g_addr = a, g_name = f_name F @ ''.reloc_slot'', g_linkage = InternalLinkage,
      g_visibility = HiddenVisibility, g_constant = False, g_init = Some INull\<rparr>"

definition add_gvar :: "gvar \<Rightarrow> llmodule \<Rightarrow> llmodule" where
  "add_gvar g M = M\<lparr>m_globals := m_globals M @ [g]\<rparr>"

definition prepare_slot :: "nat \<Rightarrow> clone_ctx \<times> llmodule \<Rightarrow> abort + clone_ctx \<times> llmodule" where
  "prepare_slot a st =
     (let (ctx, M) = st in
      case find_func M a of
        None \<Rightarrow> Inr (ctx, M)
      | Some F \<Rightarrow>
          if hasFnAttribute F ''julia.mv.reloc'' then
            if \<not> hasFnAttribute F ''julia.mv.clones''
            then Inl (Abort ''F->hasFnAttribute(julia.mv.clones)'' M)
            else if f_body F = None then
              let GV = extern_slot (new_gvar_addr M) F
              in Inr (ctx\<lparr>c_extern_relocs := AList.update a (g_addr GV) (c_extern_relocs ctx)\<rparr>,
                      add_gvar GV M)
            else
              (case get_func_id ctx a of
                 None \<Rightarrow> Inl (Abort ''Requesting id of non-fvar!'' M)
               | Some fid \<Rightarrow>
                   let GV = const_slot (new_gvar_addr M) F
                   in Inr (ctx\<lparr>c_const_relocs := AList.update fid (g_addr GV) (c_const_relocs ctx)\<rparr>,
                           add_gvar GV M))
          else Inr (ctx, M))"

definition prepare_slots :: "clone_ctx \<times> llmodule \<Rightarrow> abort + clone_ctx \<times> llmodule" where
  "prepare_slots st = fold_abort prepare_slot (c_orig_funcs (fst st)) st"

subsection \<open>\<^verbatim>\<open>clone_decls\<close> (source lines 434 to 457)\<close>

text \<open>
  \<^verbatim>\<open>Function::Create\<close> with the type, linkage and name given, then
  \<^verbatim>\<open>copyAttributesFrom\<close> and \<^verbatim>\<open>setVisibility\<close>: a declaration.
\<close>

definition new_decl :: "nat \<Rightarrow> func \<Rightarrow> string \<Rightarrow> func" where
  "new_decl a F suffix =
     \<lparr>f_addr = a, f_name = f_name F @ suffix, f_type = f_type F, f_linkage = f_linkage F,
      f_visibility = f_visibility F, f_attrs = f_attrs F, f_body = None, f_callees = []\<rparr>"

definition add_func :: "func \<Rightarrow> llmodule \<Rightarrow> llmodule" where
  "add_func F M = M\<lparr>m_funcs := m_funcs M @ [F]\<rparr>"

text \<open>The value map behind an entry of \<^verbatim>\<open>linearized\<close>.\<close>

definition set_vmap :: "tref \<Rightarrow> nat \<Rightarrow> nat \<Rightarrow> group list \<Rightarrow> group list" where
  "set_vmap r key val grps =
     (case r of
        TGroup g \<Rightarrow> grps[g := (grps ! g)\<lparr>vmap := AList.update key val (vmap (grps ! g))\<rparr>]
      | TClone g c \<Rightarrow>
          grps[g := (grps ! g)\<lparr>grp_clones :=
            (grp_clones (grps ! g))[c := (grp_clones (grps ! g) ! c)
               \<lparr>vmap := AList.update key val (vmap (grp_clones (grps ! g) ! c))\<rparr>]\<rparr>])"

definition get_vmap :: "group list \<Rightarrow> tref \<Rightarrow> (nat \<times> nat) list" where
  "get_vmap grps r =
     (case r of TGroup g \<Rightarrow> vmap (grps ! g) | TClone g c \<Rightarrow> vmap (grp_clones (grps ! g) ! c))"

text \<open>
  One turn of the inner loop, for a function \<open>F\<close> and a target \<open>i\<close> whose bit is set. For a
  clone-all target the key of the new entry is the base function of the group that
  \<^verbatim>\<open>linearized[specs[i].base]\<close> points to.
\<close>

definition clone_decl :: "func \<Rightarrow> nat \<Rightarrow> clone_ctx \<times> llmodule \<Rightarrow> abort + clone_ctx \<times> llmodule" where
  "clone_decl F i st =
     (let (ctx, M) = st;
          new_F = new_decl (new_func_addr M) F (''.'' @ to_string i);
          M' = add_func new_F M;
          spec = c_specs ctx ! i
      in case (if flags spec AND JL_TARGET_CLONE_ALL \<noteq> 0 then
                 (if \<not> (0 \<le> base spec \<and> nat (base spec) < length (c_linearized ctx))
                  then Inl (Abort ''linearized[specs[i].base]'' M')
                  else case c_linearized ctx ! nat (base spec) of
                         TClone g c \<Rightarrow> Inl (Abort ''static_cast<Group*>'' M')
                       | TGroup g \<Rightarrow>
                           (case base_func (c_groups ctx ! g) (f_addr F) of
                              None \<Rightarrow> Inl (Abort ''cast<Function>(vmap->lookup(orig_f))'' M')
                            | Some b \<Rightarrow> Inr b))
               else Inr (f_addr F)) of
           Inl e \<Rightarrow> Inl e
         | Inr b \<Rightarrow>
             Inr (ctx\<lparr>c_groups := set_vmap (c_linearized ctx ! i) b (f_addr new_F) (c_groups ctx)\<rparr>,
                  M'))"

text \<open>
  The targets whose bit is set in the function's clone mask, in ascending order; \<open>None\<close>
  when the \<^verbatim>\<open>APInt\<close> constructor rejects the attribute string.
\<close>

definition clone_mask_of :: "nat \<Rightarrow> func \<Rightarrow> nat option" where
  "clone_mask_of n F =
     (case map_of (f_attrs F) ''julia.mv.clones'' of
        None \<Rightarrow> None
      | Some str \<Rightarrow> APInt_fromString n str)"

definition clone_targets :: "nat \<Rightarrow> nat \<Rightarrow> nat list" where
  "clone_targets n c = filter (bit c) [1..<n]"

definition clone_decls_of :: "nat \<Rightarrow> clone_ctx \<times> llmodule \<Rightarrow> abort + clone_ctx \<times> llmodule" where
  "clone_decls_of a st =
     (let (ctx, M) = st in
      case find_func M a of
        None \<Rightarrow> Inr (ctx, M)
      | Some F \<Rightarrow>
          if \<not> hasFnAttribute F ''julia.mv.clones'' then Inr (ctx, M)
          else case clone_mask_of (length (c_specs ctx)) F of
                 None \<Rightarrow> Inl (Abort ''APInt(numbits, str, 16)'' M)
               | Some c \<Rightarrow> fold_abort (clone_decl F) (clone_targets (length (c_specs ctx)) c) st)"

definition clone_decls :: "clone_ctx \<times> llmodule \<Rightarrow> abort + clone_ctx \<times> llmodule" where
  "clone_decls st = fold_abort clone_decls_of (c_orig_funcs (fst st)) st"

subsection \<open>\<^verbatim>\<open>clone_bodies\<close> (source lines 459 to 529)\<close>

text \<open>
  Modelled from the spec: \<^verbatim>\<open>JL_TARGET_OPTSIZE\<close> and \<^verbatim>\<open>JL_TARGET_MINSIZE\<close> of
  \<^verbatim>\<open>processor.h\<close>, the size policy of a target descriptor: two more distinct bits.
\<close>

definition JL_TARGET_OPTSIZE :: "32 word" where
  "JL_TARGET_OPTSIZE = 64"

definition JL_TARGET_MINSIZE :: "32 word" where
  "JL_TARGET_MINSIZE = 128"

text \<open>
  \<^verbatim>\<open>CloneFunctionInto\<close> belongs to the LLVM library. What the pass relies on: the body is
  copied with every reference to a function replaced by its entry in the value map, the
  function attributes of the source are set on the copy, and every function the body
  refers to that has no entry gets an identity entry.
\<close>

definition remap_ref :: "(nat \<times> nat) list \<Rightarrow> oref \<Rightarrow> oref" where
  "remap_ref vm r =
     (case r of
        RFunc g \<Rightarrow> (case map_of vm g of None \<Rightarrow> RFunc g | Some g' \<Rightarrow> RFunc g')
      | _ \<Rightarrow> r)"

definition remap_inst :: "(nat \<times> nat) list \<Rightarrow> inst \<Rightarrow> inst" where
  "remap_inst vm I = I\<lparr>i_operands := map (\<lambda>x. x\<lparr>op_ref := remap_ref vm (op_ref x)\<rparr>) (i_operands I)\<rparr>"

definition body_funcs :: "fbody \<Rightarrow> nat list" where
  "body_funcs B =
     concat (map (\<lambda>I. concat (map (\<lambda>x. case op_ref x of RFunc g \<Rightarrow> [g] | _ \<Rightarrow> []) (i_operands I)))
       (b_insts B))"

definition add_identity :: "nat list \<Rightarrow> (nat \<times> nat) list \<Rightarrow> (nat \<times> nat) list" where
  "add_identity gs vm = foldl (\<lambda>vm g. if map_of vm g = None then vm @ [(g, g)] else vm) vm gs"

text \<open>
  \<^verbatim>\<open>clone_function(F, new_f, vmap)\<close>, called for a function with a body: the value map
  after the call, and the module.
\<close>

definition clone_function ::
  "func \<Rightarrow> nat \<Rightarrow> (nat \<times> nat) list \<Rightarrow> llmodule \<Rightarrow> (nat \<times> nat) list \<times> llmodule" where
  "clone_function F new_f vm M =
     (case f_body F of
        None \<Rightarrow> (vm, M)
      | Some B \<Rightarrow>
          (add_identity (body_funcs B) vm,
           update_func new_f
             (\<lambda>G. G\<lparr>f_body := Some (B\<lparr>b_insts := map (remap_inst vm) (b_insts B)\<rparr>),
                     f_attrs := f_attrs F\<rparr>) M))"

text \<open>
  \<^verbatim>\<open>add_features\<close>. The enum attributes \<^verbatim>\<open>optnone\<close>, \<^verbatim>\<open>optsize\<close> and \<^verbatim>\<open>minsize\<close> are
  kept in the attribute list under their names.
\<close>

definition add_features :: "jl_target_spec \<Rightarrow> func \<Rightarrow> func" where
  "add_features spec F =
     (let F = (case map_of (f_attrs F) ''target-features'' of
                 Some old \<Rightarrow> addFnAttr ''target-features'' (old @ '','' @ cpu_features spec) F
               | None \<Rightarrow> addFnAttr ''target-features'' (cpu_features spec) F);
          F = addFnAttr ''target-cpu'' (cpu_name spec) F
      in if \<not> hasFnAttribute F ''optnone'' then
           (if flags spec AND JL_TARGET_OPTSIZE \<noteq> 0 then addFnAttr ''optsize'' [] F
            else if flags spec AND JL_TARGET_MINSIZE \<noteq> 0 then addFnAttr ''minsize'' [] F
            else F)
         else F)"

definition is_declaration :: "llmodule \<Rightarrow> nat \<Rightarrow> bool" where
  "is_declaration M a = (case find_func M a of None \<Rightarrow> True | Some F \<Rightarrow> f_body F = None)"

text \<open>The body of the loop over \<^verbatim>\<open>groups[i].clones\<close>, for the clone at position \<open>c\<close>.\<close>

definition clone_target_body ::
  "nat \<Rightarrow> nat \<Rightarrow> nat \<Rightarrow> nat \<Rightarrow> clone_ctx \<times> llmodule \<Rightarrow> clone_ctx \<times> llmodule" where
  "clone_target_body F group_F i c st =
     (let (ctx, M) = st;
          tgt = grp_clones (c_groups ctx ! i) ! c
      in case map_get (vmap tgt) F of
           None \<Rightarrow> (ctx, M)
         | Some target_F \<Rightarrow>
             let (ctx, M) =
                   (if \<not> is_declaration M F then
                      (case find_func M group_F of
                         None \<Rightarrow> (ctx, M)
                       | Some G \<Rightarrow>
                           let (vm, M') = clone_function G target_F (vmap tgt) M;
                               grp = c_groups ctx ! i;
                               grp' = grp\<lparr>grp_clones := (grp_clones grp)[c := tgt\<lparr>vmap := vm\<rparr>]\<rparr>
                           in (ctx\<lparr>c_groups := (c_groups ctx)[i := grp']\<rparr>, M'))
                    else (ctx, M));
                 M = update_func target_F (add_features (c_specs ctx ! idx tgt)) M;
                 M = update_func target_F (addFnAttr ''julia.mv.clone'' (to_string i)) M
             in (ctx, M))"

text \<open>The body of the loop over the groups, for the function \<open>F\<close> and the group at \<open>i\<close>.\<close>

definition clone_group_body ::
  "nat \<Rightarrow> nat \<Rightarrow> clone_ctx \<times> llmodule \<Rightarrow> abort + clone_ctx \<times> llmodule" where
  "clone_group_body F i st =
     (let (ctx, M) = st in
      case (if i \<noteq> 0 then base_func (c_groups ctx ! i) F else Some F) of
        None \<Rightarrow> Inl (Abort ''cast<Function>(vmap->lookup(orig_f))'' M)
      | Some group_F \<Rightarrow>
          let (ctx, M) =
                (if i \<noteq> 0 \<and> \<not> is_declaration M F then
                   (case find_func M F of
                      None \<Rightarrow> (ctx, M)
                    | Some Fn \<Rightarrow>
                        let (vm, M') = clone_function Fn group_F (vmap (c_groups ctx ! i)) M
                        in (ctx\<lparr>c_groups := (c_groups ctx)[i := (c_groups ctx ! i)\<lparr>vmap := vm\<rparr>]\<rparr>, M'))
                 else (ctx, M));
              (ctx, M) = foldl (\<lambda>st c. clone_target_body F group_F i c st) (ctx, M)
                           [0..<length (grp_clones (c_groups ctx ! i))];
              M = (if i \<noteq> 0
                   then update_func group_F (add_features (c_specs ctx ! idx (c_groups ctx ! i))) M
                   else M);
              M = update_func group_F (addFnAttr ''julia.mv.clone'' (to_string i)) M
          in Inr (ctx, M))"

definition clone_bodies :: "clone_ctx \<times> llmodule \<Rightarrow> abort + clone_ctx \<times> llmodule" where
  "clone_bodies st =
     fold_abort (\<lambda>F. fold_abort (clone_group_body F) [0..<length (c_groups (fst st))])
       (c_orig_funcs (fst st)) st"

subsection \<open>\<^verbatim>\<open>get_reloc_slot\<close> (source lines 659 to 671)\<close>

text \<open>
  The id and the slot of a function, or the assertion that fails. The id of an extern
  slot is \<^verbatim>\<open>(uint32_t)-1\<close>.
\<close>

definition get_reloc_slot :: "clone_ctx \<Rightarrow> llmodule \<Rightarrow> nat \<Rightarrow> string + nat \<times> nat" where
  "get_reloc_slot ctx M F =
     (if is_declaration M F then
        (case map_of (c_extern_relocs ctx) F of
           None \<Rightarrow> Inl ''Missing extern relocation slot!''
         | Some slot \<Rightarrow> Inr (2 ^ 32 - 1, slot))
      else
        (case get_func_id ctx F of
           None \<Rightarrow> Inl ''Requesting id of non-fvar!''
         | Some fid \<Rightarrow>
             (case map_of (c_const_relocs ctx) fid of
                None \<Rightarrow> Inl ''Missing relocation slot!''
              | Some slot \<Rightarrow> Inr (fid, slot))))"

subsection \<open>\<^verbatim>\<open>rewrite_alias\<close> (source lines 581 to 620)\<close>

text \<open>
  The body of a trampoline for a function of type \<open>ty\<close> and the slot \<open>slot\<close>: the call of
  the pointer loaded from the slot, with the trampoline's arguments, and the return. The
  load of the slot, tagged with the constant TBAA node and as invariant, is the callee
  operand of the call.
\<close>

definition trampoline_call :: "ftype \<Rightarrow> nat \<Rightarrow> inst" where
  "trampoline_call ty slot =
     \<lparr>i_kind = CallInst (ft_is_vector ty) None, i_type_is_vector = False,
      i_fast_math_any = False,
      i_tail = (if ft_is_vararg ty then TCK_MustTail else TCK_Tail),
      i_operands = map (\<lambda>h. \<lparr>op_is_half = h, op_ref = ROther\<rparr>) (ft_params_half ty)
                   @ [\<lparr>op_is_half = False, op_ref = RLoad slot True True\<rparr>]\<rparr>"

definition trampoline_ret :: "ftype \<Rightarrow> inst" where
  "trampoline_ret ty =
     \<lparr>i_kind = RetInst, i_type_is_vector = False, i_fast_math_any = False, i_tail = TCK_None,
      i_operands = (if ft_ret_void ty then [] else [\<lparr>op_is_half = False, op_ref = ROther\<rparr>])\<rparr>"

definition trampoline_body :: "ftype \<Rightarrow> nat \<Rightarrow> fbody" where
  "trampoline_body ty slot =
     \<lparr>b_has_loop = False, b_insts = [trampoline_call ty slot, trampoline_ret ty]\<rparr>"

definition erase_alias :: "nat \<Rightarrow> llmodule \<Rightarrow> llmodule" where
  "erase_alias a M = M\<lparr>m_aliases := filter (\<lambda>x. a_addr x \<noteq> a) (m_aliases M)\<rparr>"

definition find_alias :: "llmodule \<Rightarrow> nat \<Rightarrow> galias option" where
  "find_alias M a = find (\<lambda>x. a_addr x = a) (m_aliases M)"

text \<open>
  \<open>no_musttail\<close> is the build for ARM, PPC or PPC64, where a variadic function aborts. The
  trampoline is created, named and the alias erased before the slot is looked up.
\<close>

definition rewrite_alias ::
  "bool \<Rightarrow> clone_ctx \<Rightarrow> galias \<Rightarrow> func \<Rightarrow> llmodule \<Rightarrow> abort + llmodule" where
  "rewrite_alias no_musttail ctx alias F M =
     (if ft_is_vector (f_type F) then Inl (Abort ''!is_vector(F->getFunctionType())'' M)
      else
        let trampoline =
              \<lparr>f_addr = new_func_addr M, f_name = a_name alias, f_type = f_type F,
               f_linkage = a_linkage alias, f_visibility = f_visibility F,
               f_attrs = f_attrs F, f_body = None, f_callees = []\<rparr>;
            M = erase_alias (a_addr alias) (add_func trampoline M)
        in case get_reloc_slot ctx M (f_addr F) of
             Inl e \<Rightarrow> Inl (Abort e M)
           | Inr (fid, slot) \<Rightarrow>
               if ft_is_vararg (f_type F) \<and> no_musttail then Inl (Abort ''abort()'' M)
               else Inr (update_func (f_addr trampoline)
                           (\<lambda>T. T\<lparr>f_body := Some (trampoline_body (f_type F) slot)\<rparr>) M))"

subsection \<open>\<^verbatim>\<open>fix_gv_uses\<close> (source lines 622 to 657)\<close>

definition null_leaf :: "nat \<Rightarrow> ginit option \<Rightarrow> ginit option" where
  "null_leaf k i =
     (case i of
        Some (IArray cs) \<Rightarrow> Some (IArray (cs[k := CNull]))
      | Some (IAggr ls) \<Rightarrow> Some (IAggr (ls[k := (fst (ls ! k), CNull)]))
      | _ \<Rightarrow> i)"

definition update_gvar :: "nat \<Rightarrow> (gvar \<Rightarrow> gvar) \<Rightarrow> llmodule \<Rightarrow> llmodule" where
  "update_gvar a h M = M\<lparr>m_globals := map (\<lambda>g. if g_addr g = a then h g else g) (m_globals M)\<rparr>"

text \<open>
  One use of \<open>orig_f\<close>, as the loop body treats it. A use by an alias rewrites the alias. A
  use by a global variable must keep the pointer's bits, and the variable must not be
  constant: the address of the use and the function's id are recorded, and the reference
  in the initializer becomes null. A use whose user is no longer in the module cannot
  arise where addresses identify objects; it is an abort.
\<close>

definition fix_gv_use ::
  "bool \<Rightarrow> nat \<Rightarrow> guse \<Rightarrow> clone_ctx \<times> llmodule \<Rightarrow> abort + clone_ctx \<times> llmodule" where
  "fix_gv_use no_musttail orig_f u st =
     (let (ctx, M) = st in
      case u of
        UseAlias a \<Rightarrow>
          (case (find_alias M a, find_func M orig_f) of
             (Some alias, Some F) \<Rightarrow>
               (case rewrite_alias no_musttail ctx alias F M of
                  Inl e \<Rightarrow> Inl e
                | Inr M' \<Rightarrow> Inr (ctx, M'))
           | _ \<Rightarrow> Inl (Abort ''dangling use'' M))
      | UseGVar g k \<Rightarrow>
          (case find_gvar M g of
             None \<Rightarrow> Inl (Abort ''dangling use'' M)
           | Some val \<Rightarrow>
               if \<not> k < length (gvar_leaves val) then Inl (Abort ''dangling use'' M)
               else
                 let (off, c) = gvar_leaves val ! k in
                 if c \<noteq> CFunc orig_f then Inl (Abort ''info.samebits'' M)
                 else if g_constant val then Inl (Abort ''!val->isConstant()'' M)
                 else
                   (case get_func_id ctx orig_f of
                      None \<Rightarrow> Inl (Abort ''Requesting id of non-fvar!'' M)
                    | Some fid \<Rightarrow>
                        let addr = (if off \<noteq> 0 then CAdd (CPtrToInt (CGlobal g)) off
                                    else CPtrToInt (CGlobal g))
                        in Inr (ctx\<lparr>c_gv_relocs := c_gv_relocs ctx @ [(addr, fid)]\<rparr>,
                                update_gvar g (\<lambda>v. v\<lparr>g_init := null_leaf k (g_init v)\<rparr>) M))))"

definition single_pass ::
  "bool \<Rightarrow> nat \<Rightarrow> clone_ctx \<times> llmodule \<Rightarrow> abort + bool \<times> clone_ctx \<times> llmodule" where
  "single_pass no_musttail orig_f st =
     (let uses = gv_uses (snd st) orig_f in
      case fold_abort (fix_gv_use no_musttail orig_f) uses st of
        Inl e \<Rightarrow> Inl e
      | Inr st' \<Rightarrow> Inr (uses \<noteq> [], st'))"

lemma zip_update_snd:
  "length xs = length ys \<Longrightarrow> zip xs (ys[k := y]) = (zip xs ys)[k := (fst (zip xs ys ! k), y)]"
proof (induction xs ys arbitrary: k rule: list_induct2)
  case Nil
  then show ?case by simp
next
  case (Cons x xs y' ys)
  then show ?case by (cases k) auto
qed

lemma gvar_leaves_null_leaf:
  "gvar_leaves (v\<lparr>g_init := null_leaf k (g_init v)\<rparr>)
     = (gvar_leaves v)[k := (fst (gvar_leaves v ! k), CNull)]"
proof (cases "g_init v")
  case None
  then show ?thesis by (simp add: gvar_leaves_def null_leaf_def)
next
  case (Some i)
  then show ?thesis
    by (cases i) (simp_all add: gvar_leaves_def null_leaf_def zip_update_snd)
qed

lemma uses_func_update_null:
  "j < length ls \<Longrightarrow>
   uses_func f (snd (ls[k := (a, CNull)] ! j)) \<longleftrightarrow> j \<noteq> k \<and> uses_func f (snd (ls ! j))"
  by (cases "j = k") auto

lemma filter_uses_update_null:
  "filter (\<lambda>j. uses_func f (snd (ls[k := (a, CNull)] ! j))) [0..<length ls]
     = filter (\<lambda>j. j \<noteq> k) (filter (\<lambda>j. uses_func f (snd (ls ! j))) [0..<length ls])"
  by (auto simp: uses_func_update_null intro!: filter_cong)

lemma length_gvar_uses_null:
  "length (gvar_uses f (v\<lparr>g_init := null_leaf k (g_init v)\<rparr>)) \<le> length (gvar_uses f v)"
  by (simp add: gvar_uses_def gvar_leaves_null_leaf filter_uses_update_null del: filter_filter)

lemma length_gvar_uses_null_less:
  assumes "k < length (gvar_leaves v)" "uses_func f (snd (gvar_leaves v ! k))"
  shows "length (gvar_uses f (v\<lparr>g_init := null_leaf k (g_init v)\<rparr>)) < length (gvar_uses f v)"
proof -
  let ?ls = "gvar_leaves v"
  let ?us = "filter (\<lambda>j. uses_func f (snd (?ls ! j))) [0..<length ?ls]"
  have "k \<in> set ?us" using assms by simp
  then have "length (filter (\<lambda>j. j \<noteq> k) ?us) < length ?us"
    by (intro length_filter_less) auto
  then show ?thesis
    by (simp add: gvar_uses_def gvar_leaves_null_leaf filter_uses_update_null del: filter_filter)
qed

lemma length_filter_filter_le: "length (filter P (filter Q xs)) \<le> length (filter P xs)"
  by (induction xs) auto

text \<open>The number of uses left: what the loop of line 654 decreases.\<close>

definition use_count :: "llmodule \<Rightarrow> nat \<Rightarrow> nat" where
  "use_count M f = length (gv_uses M f)"

lemma use_count_alt:
  "use_count M f = length (filter (\<lambda>a. uses_func f (a_aliasee a)) (m_aliases M))
      + sum_list (map (\<lambda>g. length (gvar_uses f g)) (m_globals M))"
  by (simp add: use_count_def gv_uses_def length_concat comp_def)

lemma sum_list_map_le:
  "(\<And>x. x \<in> set xs \<Longrightarrow> l (h x) \<le> (l x :: nat)) \<Longrightarrow>
   sum_list (map (\<lambda>x. l (h x)) xs) \<le> sum_list (map l xs)"
  by (induction xs) (auto intro: add_mono)

lemma sum_list_map_less:
  assumes "\<And>x. x \<in> set xs \<Longrightarrow> l (h x) \<le> (l x :: nat)" "y \<in> set xs" "l (h y) < l y"
  shows "sum_list (map (\<lambda>x. l (h x)) xs) < sum_list (map l xs)"
  using assms
proof (induction xs)
  case Nil
  then show ?case by simp
next
  case (Cons x xs)
  show ?case
  proof (cases "y = x")
    case True
    have "sum_list (map (\<lambda>x. l (h x)) xs) \<le> sum_list (map l xs)"
      using Cons.prems(1) by (intro sum_list_map_le) auto
    with True Cons.prems(3) show ?thesis by simp
  next
    case False
    with Cons.prems have "y \<in> set xs" by auto
    from Cons.IH[OF _ this Cons.prems(3)] Cons.prems(1)
    have "sum_list (map (\<lambda>x. l (h x)) xs) < sum_list (map l xs)" by auto
    moreover have "l (h x) \<le> l x" using Cons.prems(1) by auto
    ultimately show ?thesis by simp
  qed
qed

lemma use_count_rewrite_alias:
  assumes "rewrite_alias nm ctx alias F M = Inr M'"
  shows "m_aliases M' = filter (\<lambda>x. a_addr x \<noteq> a_addr alias) (m_aliases M)"
    and "m_globals M' = m_globals M"
  using assms
  by (auto simp: rewrite_alias_def Let_def erase_alias_def add_func_def update_func_def
      split: if_splits sum.splits prod.splits)

lemma fix_gv_use_le:
  assumes "fix_gv_use nm f u (ctx, M) = Inr (ctx', M')"
  shows "use_count M' f \<le> use_count M f"
proof (cases u)
  case (UseAlias a)
  with assms obtain al F where r: "rewrite_alias nm ctx al F M = Inr M'"
    by (auto simp: fix_gv_use_def split: option.splits sum.splits)
  show ?thesis
    unfolding use_count_alt use_count_rewrite_alias[OF r]
    by (simp add: length_filter_filter_le del: filter_filter)
next
  case (UseGVar g k)
  with assms have M': "M' = update_gvar g (\<lambda>v. v\<lparr>g_init := null_leaf k (g_init v)\<rparr>) M"
    by (auto simp: fix_gv_use_def Let_def split: option.splits sum.splits if_splits prod.splits)
  show ?thesis
    unfolding use_count_alt M'
    by (auto simp: update_gvar_def comp_def length_gvar_uses_null
        intro!: sum_list_map_le[where h = "\<lambda>ga. if g_addr ga = g then ga\<lparr>g_init := null_leaf k (g_init ga)\<rparr> else ga"
                 and l = "\<lambda>g. length (gvar_uses f g)"])
qed

lemma find_Some_set: "find P xs = Some x \<Longrightarrow> x \<in> set xs \<and> P x"
  by (auto simp: find_Some_iff)

lemma fix_gv_use_less:
  assumes "fix_gv_use nm f u (ctx, M) = Inr (ctx', M')" "u \<in> set (gv_uses M f)"
  shows "use_count M' f < use_count M f"
proof (cases u)
  case (UseAlias a)
  with assms obtain al F where r: "rewrite_alias nm ctx al F M = Inr M'"
    and al: "find_alias M a = Some al"
    by (auto simp: fix_gv_use_def split: option.splits sum.splits)
  from al have aa: "a_addr al = a" by (auto simp: find_alias_def dest: find_Some_set)
  from assms(2) UseAlias obtain x where x: "x \<in> set (m_aliases M)" "uses_func f (a_aliasee x)"
    "a_addr x = a"
    by (auto simp: gv_uses_def gvar_uses_def)
  then have "x \<in> set (filter (\<lambda>a. uses_func f (a_aliasee a)) (m_aliases M))" by simp
  then have "length (filter (\<lambda>x. a_addr x \<noteq> a) (filter (\<lambda>a. uses_func f (a_aliasee a)) (m_aliases M)))
      < length (filter (\<lambda>a. uses_func f (a_aliasee a)) (m_aliases M))"
    using x by (intro length_filter_less) auto
  then show ?thesis
    unfolding use_count_alt use_count_rewrite_alias[OF r] aa
    by (simp add: conj_commute)
next
  case (UseGVar g k)
  with assms obtain val off where val: "find_gvar M g = Some val" "k < length (gvar_leaves val)"
    "gvar_leaves val ! k = (off, CFunc f)"
    and M': "M' = update_gvar g (\<lambda>v. v\<lparr>g_init := null_leaf k (g_init v)\<rparr>) M"
    by (auto simp: fix_gv_use_def Let_def split: option.splits sum.splits if_splits prod.splits)
  from val(1) have v: "val \<in> set (m_globals M)" "g_addr val = g"
    by (auto simp: find_gvar_def dest: find_Some_set)
  let ?h = "\<lambda>ga. if g_addr ga = g then ga\<lparr>g_init := null_leaf k (g_init ga)\<rparr> else ga"
  have "sum_list (map (\<lambda>x. length (gvar_uses f (?h x))) (m_globals M))
      < sum_list (map (\<lambda>g. length (gvar_uses f g)) (m_globals M))"
  proof (rule sum_list_map_less[where y = val and l = "\<lambda>g. length (gvar_uses f g)"])
    show "\<And>x. x \<in> set (m_globals M) \<Longrightarrow> length (gvar_uses f (?h x)) \<le> length (gvar_uses f x)"
      by (simp add: length_gvar_uses_null)
    show "val \<in> set (m_globals M)" by (rule v)
    show "length (gvar_uses f (?h val)) < length (gvar_uses f val)"
      using v val by (simp add: length_gvar_uses_null_less)
  qed
  then show ?thesis
    unfolding use_count_alt M' by (simp add: update_gvar_def comp_def)
qed

lemma fold_fix_gv_use_le:
  "fold_abort (fix_gv_use nm f) us (ctx, M) = Inr (ctx', M') \<Longrightarrow> use_count M' f \<le> use_count M f"
proof (induction us arbitrary: ctx M)
  case Nil
  then show ?case by simp
next
  case (Cons u us)
  then obtain ctx1 M1 where s: "fix_gv_use nm f u (ctx, M) = Inr (ctx1, M1)"
    and r: "fold_abort (fix_gv_use nm f) us (ctx1, M1) = Inr (ctx', M')"
    by (auto split: sum.splits)
  from Cons.IH[OF r] fix_gv_use_le[OF s] show ?case by simp
qed

lemma single_pass_decreases:
  assumes "single_pass nm f st = Inr (True, st')"
  shows "use_count (snd st') f < use_count (snd st) f"
proof -
  obtain ctx M where st: "st = (ctx, M)" by (cases st)
  obtain ctx' M' where st': "st' = (ctx', M')" by (cases st')
  from assms st st' obtain u us where us: "gv_uses M f = u # us"
    and f: "fold_abort (fix_gv_use nm f) (u # us) (ctx, M) = Inr (ctx', M')"
    by (cases "gv_uses M f") (auto simp: single_pass_def Let_def split: sum.splits)
  then obtain ctx1 M1 where s: "fix_gv_use nm f u (ctx, M) = Inr (ctx1, M1)"
    and r: "fold_abort (fix_gv_use nm f) us (ctx1, M1) = Inr (ctx', M')"
    by (auto split: sum.splits)
  have "u \<in> set (gv_uses M f)" using us by simp
  from fix_gv_use_less[OF s this] fold_fix_gv_use_le[OF r] st st' show ?thesis by simp
qed

text \<open>\<^verbatim>\<open>while (single_pass(orig_f))\<close>: the pass is repeated until it finds no use.\<close>

function fix_uses_loop ::
  "bool \<Rightarrow> nat \<Rightarrow> clone_ctx \<times> llmodule \<Rightarrow> abort + clone_ctx \<times> llmodule" where
  "fix_uses_loop no_musttail orig_f st =
     (case single_pass no_musttail orig_f st of
        Inl e \<Rightarrow> Inl e
      | Inr (changed, st') \<Rightarrow> if changed then fix_uses_loop no_musttail orig_f st' else Inr st')"
  by pat_completeness auto
termination
proof (relation "measure (\<lambda>(nm, f, st). use_count (snd st) f)")
  fix no_musttail orig_f st x2 x y
  assume "single_pass no_musttail orig_f st = Inr x2" "(x, y) = x2" "x"
  then have "single_pass no_musttail orig_f st = Inr (True, y)" by auto
  from single_pass_decreases[OF this]
  show "((no_musttail, orig_f, y), (no_musttail, orig_f, st))
       \<in> measure (\<lambda>(nm, f, st). use_count (snd st) f)" by simp
qed simp

declare fix_uses_loop.simps [simp del]

definition fix_gv_uses :: "bool \<Rightarrow> clone_ctx \<times> llmodule \<Rightarrow> abort + clone_ctx \<times> llmodule" where
  "fix_gv_uses no_musttail st =
     fold_abort
       (\<lambda>orig_f st.
          if length (c_groups (fst st)) = 1 \<and> orig_f \<notin> set (c_cloned (fst st)) then Inr st
          else fix_uses_loop no_musttail orig_f st)
       (c_orig_funcs (fst st)) st"

subsection \<open>\<^verbatim>\<open>fix_inst_uses\<close> and \<^verbatim>\<open>replaceUsesWithLoad\<close> (source lines 723 to 744, 990 to 1012)\<close>

text \<open>
  The instruction uses of \<open>F\<close> in the functions that \<open>tagged\<close> selects become loads of the
  slot. The loop of \<^verbatim>\<open>replaceUsesWithLoad\<close> repeats until a scan changes nothing; a
  replaced operand is no longer a use, so one scan replaces them all.
\<close>

definition load_operand :: "nat \<Rightarrow> nat \<Rightarrow> operand \<Rightarrow> operand" where
  "load_operand F slot x = (if op_ref x = RFunc F then x\<lparr>op_ref := RLoad slot True True\<rparr> else x)"

definition replaceUsesWithLoad :: "nat \<Rightarrow> (func \<Rightarrow> bool) \<Rightarrow> nat \<Rightarrow> llmodule \<Rightarrow> llmodule" where
  "replaceUsesWithLoad F tagged slot M =
     M\<lparr>m_funcs :=
         map (\<lambda>G. if tagged G then
                     G\<lparr>f_body := map_option
                         (\<lambda>B. B\<lparr>b_insts := map (\<lambda>I. I\<lparr>i_operands := map (load_operand F slot) (i_operands I)\<rparr>)
                                              (b_insts B)\<rparr>) (f_body G)\<rparr>
                   else G) (m_funcs M)\<rparr>"

definition in_group :: "group \<Rightarrow> func \<Rightarrow> bool" where
  "in_group grp use_f = (map_of (f_attrs use_f) ''julia.mv.clone'' = Some (to_string (idx grp)))"

definition has_tagged_use :: "llmodule \<Rightarrow> (func \<Rightarrow> bool) \<Rightarrow> nat \<Rightarrow> bool" where
  "has_tagged_use M tagged F =
     list_ex (\<lambda>G. tagged G \<and> (case f_body G of None \<Rightarrow> False
                                | Some B \<Rightarrow> list_ex (inst_uses_func F) (b_insts B))) (m_funcs M)"

text \<open>
  The body of the inner loop, for a group and an original function. The slot is looked up
  when a use is to be replaced: without such a use a missing slot is no abort.
\<close>

definition fix_inst_use ::
  "group \<Rightarrow> nat \<Rightarrow> clone_ctx \<times> llmodule \<Rightarrow> abort + clone_ctx \<times> llmodule" where
  "fix_inst_use grp orig_f st =
     (let (ctx, M) = st in
      case has_subtarget_clone grp orig_f of
        None \<Rightarrow> Inl (Abort ''cast<Function>(vmap->lookup(orig_f))'' M)
      | Some False \<Rightarrow> Inr (ctx, M)
      | Some True \<Rightarrow>
          (case base_func grp orig_f of
             None \<Rightarrow> Inl (Abort ''cast<Function>(vmap->lookup(orig_f))'' M)
           | Some F \<Rightarrow>
               if has_tagged_use M (in_group grp) F then
                 (case get_reloc_slot ctx M orig_f of
                    Inl e \<Rightarrow> Inl (Abort e M)
                  | Inr (fid, slot) \<Rightarrow> Inr (ctx, replaceUsesWithLoad F (in_group grp) slot M))
               else Inr (ctx, M)))"

definition fix_inst_uses :: "clone_ctx \<times> llmodule \<Rightarrow> abort + clone_ctx \<times> llmodule" where
  "fix_inst_uses st =
     fold_abort (\<lambda>grp. fold_abort (fix_inst_use grp) (c_orig_funcs (fst st)))
       (c_groups (fst st)) st"

subsection \<open>\<^verbatim>\<open>emit_offset_table\<close> (source lines 746 to 787)\<close>

text \<open>
  \<open>ptr64\<close> is \<^verbatim>\<open>sizeof(void*) == 8\<close>, the build whose differences of addresses are
  truncated to 32 bits.
\<close>

fun is_pointer :: "cexpr \<Rightarrow> bool" where
  "is_pointer CNull = True"
| "is_pointer (CFunc f) = True"
| "is_pointer (CGlobal g) = True"
| "is_pointer c = False"

definition get_ptrdiff32 :: "bool \<Rightarrow> cexpr \<Rightarrow> cexpr \<Rightarrow> cexpr" where
  "get_ptrdiff32 ptr64 ptr vbase =
     (let ptr = (if is_pointer ptr then CPtrToInt ptr else ptr);
          ptrdiff = CSub ptr vbase
      in if ptr64 then CTrunc32 ptrdiff else ptrdiff)"

definition add_alias :: "galias \<Rightarrow> llmodule \<Rightarrow> llmodule" where
  "add_alias a M = M\<lparr>m_aliases := m_aliases M @ [a]\<rparr>"

definition hidden_table :: "nat \<Rightarrow> string \<Rightarrow> cexpr list \<Rightarrow> gvar" where
  "hidden_table a name cs =
     \<lparr>g_addr = a, g_name = name, g_linkage = ExternalLinkage, g_visibility = HiddenVisibility,
      g_constant = True, g_init = Some (IArray cs)\<rparr>"

text \<open>
  The entries of the offsets table: the count, then a zero for the first symbol and the
  difference to the base for every other one. \<^verbatim>\<open>nvars\<close> is a \<^verbatim>\<open>uint32_t\<close>.
\<close>

definition offset_entries :: "bool \<Rightarrow> cexpr list \<Rightarrow> cexpr \<Rightarrow> cexpr list" where
  "offset_entries ptr64 vars vbase =
     (let nvars = length vars mod 2 ^ 32 in
      CInt32 (of_nat nvars)
      # (if 0 < nvars
         then CInt32 0 # map (\<lambda>i. get_ptrdiff32 ptr64 (vars ! i) vbase) [1..<nvars]
         else []))"

text \<open>The base as a constant, and the module with the base symbol and the table added.\<close>

definition emit_offset_table ::
  "bool \<Rightarrow> llmodule \<Rightarrow> cexpr list \<Rightarrow> string \<Rightarrow> string \<Rightarrow> cexpr \<times> llmodule" where
  "emit_offset_table ptr64 M vars name suffix =
     (let nvars = length vars mod 2 ^ 32;
          (bas, M) =
            (if 0 < nvars then
               (vars ! 0,
                add_alias \<lparr>a_addr = new_alias_addr M, a_name = name @ ''_base'' @ suffix,
                           a_linkage = ExternalLinkage, a_visibility = HiddenVisibility,
                           a_aliasee = vars ! 0\<rparr> M)
             else
               (CGlobal (new_gvar_addr M),
                add_gvar \<lparr>g_addr = new_gvar_addr M, g_name = name @ ''_base'' @ suffix,
                          g_linkage = ExternalLinkage, g_visibility = HiddenVisibility,
                          g_constant = True, g_init = Some INull\<rparr> M));
          vbase = CPtrToInt bas
      in (vbase,
          add_gvar (hidden_table (new_gvar_addr M) (name @ ''_offsets'' @ suffix)
                      (offset_entries ptr64 vars vbase)) M))"

subsection \<open>\<^verbatim>\<open>emit_metadata\<close> (source lines 789 to 905)\<close>

text \<open>
  Modelled from the spec: \<^verbatim>\<open>jl_sysimg_tag_mask\<close> of \<^verbatim>\<open>processor.h\<close>, the tag that marks
  an index of the clone-index table: the top bit of a 32-bit index.
\<close>

definition jl_sysimg_tag_mask :: "32 word" where
  "jl_sysimg_tag_mask = 0x80000000"

text \<open>
  The loop of lines 823 to 840 for one id: the relocations recorded for the id, taken
  from the front of the sorted list, then the constant relocation slot of the id.
\<close>

definition slot_entries ::
  "bool \<Rightarrow> clone_ctx \<Rightarrow> cexpr \<Rightarrow> nat \<Rightarrow> cexpr list \<times> (cexpr \<times> nat) list \<times> nat list
     \<Rightarrow> cexpr list \<times> (cexpr \<times> nat) list \<times> nat list" where
  "slot_entries ptr64 ctx gbase fid st =
     (let (vals, relocs, shared) = st;
          here = takeWhile (\<lambda>r. snd r = fid) relocs;
          vals = vals @ concat (map (\<lambda>r. [CInt32 (of_nat fid), get_ptrdiff32 ptr64 (fst r) gbase]) here);
          shared = (if here \<noteq> [] then shared @ [fid] else shared);
          relocs = dropWhile (\<lambda>r. snd r = fid) relocs
      in case map_of (c_const_relocs ctx) fid of
           None \<Rightarrow> (vals, relocs, shared)
         | Some slot \<Rightarrow>
             (vals @ [CInt32 (of_nat fid), get_ptrdiff32 ptr64 (CGlobal slot) gbase], relocs,
              shared @ [fid]))"

text \<open>
  The entries of one target in \<^verbatim>\<open>jl_clone_idxs\<close> and \<^verbatim>\<open>jl_clone_offsets\<close> (lines 853 to
  892); \<open>None\<close> is a failing \<^verbatim>\<open>cast\<close> in \<^verbatim>\<open>base_func\<close> or a pointer of \<^verbatim>\<open>linearized\<close> that
  is no group.
\<close>

definition group_of :: "clone_ctx \<Rightarrow> nat \<Rightarrow> group option" where
  "group_of ctx i =
     (if i < length (c_linearized ctx) then
        (case c_linearized ctx ! i of TGroup g \<Rightarrow> Some (c_groups ctx ! g) | TClone g c \<Rightarrow> None)
      else None)"

fun root_entries ::
  "bool \<Rightarrow> group \<Rightarrow> cexpr \<Rightarrow> nat list \<Rightarrow> bool \<Rightarrow> nat list \<Rightarrow> nat
     \<Rightarrow> (32 word \<times> 32 word list \<times> cexpr list) option" where
  "root_entries ptr64 grp fbase shared emit_offsets [] j = Some (0, [], [])"
| "root_entries ptr64 grp fbase shared emit_offsets (f # fs) j =
     (case root_entries ptr64 grp fbase shared emit_offsets fs (j + 1) of
        None \<Rightarrow> None
      | Some (cnt, idxs, offs) \<Rightarrow>
          let (cnt, idxs) = (if j \<in> set shared then (cnt + 1, of_nat j # idxs) else (cnt, idxs))
          in if emit_offsets then
               (case base_func grp f of
                  None \<Rightarrow> None
                | Some b \<Rightarrow> Some (cnt, idxs, get_ptrdiff32 ptr64 (CFunc b) fbase # offs))
             else Some (cnt, idxs, offs))"

fun clone_entries ::
  "bool \<Rightarrow> group \<Rightarrow> (nat \<times> nat) list \<Rightarrow> cexpr \<Rightarrow> nat list \<Rightarrow> nat list \<Rightarrow> nat
     \<Rightarrow> (32 word \<times> 32 word list \<times> cexpr list) option" where
  "clone_entries ptr64 grp vm fbase shared [] j = Some (0, [], [])"
| "clone_entries ptr64 grp vm fbase shared (f # fs) j =
     (case clone_entries ptr64 grp vm fbase shared fs (j + 1) of
        None \<Rightarrow> None
      | Some (cnt, idxs, offs) \<Rightarrow>
          (case base_func grp f of
             None \<Rightarrow> None
           | Some base_f \<Rightarrow>
               if j \<in> set shared then
                 Some (cnt + 1, (jl_sysimg_tag_mask OR of_nat j) # idxs,
                       get_ptrdiff32 ptr64
                         (CFunc (case map_get vm base_f of None \<Rightarrow> base_f | Some g \<Rightarrow> g)) fbase
                       # offs)
               else (case map_get vm base_f of
                       Some g \<Rightarrow> Some (cnt + 1, of_nat j # idxs,
                                       get_ptrdiff32 ptr64 (CFunc g) fbase # offs)
                     | None \<Rightarrow> Some (cnt, idxs, offs))))"

definition target_entries ::
  "bool \<Rightarrow> clone_ctx \<Rightarrow> cexpr \<Rightarrow> nat list \<Rightarrow> nat \<Rightarrow> (32 word list \<times> cexpr list) option" where
  "target_entries ptr64 ctx fbase shared i =
     (let spec = c_specs ctx ! i in
      if i = 0 \<or> flags spec AND JL_TARGET_CLONE_ALL \<noteq> 0 then
        (case group_of ctx i of
           None \<Rightarrow> None
         | Some grp \<Rightarrow>
             (case root_entries ptr64 grp fbase shared (i \<noteq> 0) (c_fvars ctx) 0 of
                None \<Rightarrow> None
              | Some (cnt, idxs, offs) \<Rightarrow> Some ((jl_sysimg_tag_mask + cnt) # idxs, offs)))
      else
        (if \<not> 0 \<le> base spec then None
         else case group_of ctx (nat (base spec)) of
           None \<Rightarrow> None
         | Some grp \<Rightarrow>
             (case clone_entries ptr64 grp (get_vmap (c_groups ctx) (c_linearized ctx ! i))
                     fbase shared (c_fvars ctx) 0 of
                None \<Rightarrow> None
              | Some (cnt, idxs, offs) \<Rightarrow>
                  Some (cnt # word_of_int (base spec) # idxs, offs))))"

fun all_target_entries ::
  "bool \<Rightarrow> clone_ctx \<Rightarrow> cexpr \<Rightarrow> nat list \<Rightarrow> nat list \<Rightarrow> (32 word list \<times> cexpr list) option" where
  "all_target_entries ptr64 ctx fbase shared [] = Some ([], [])"
| "all_target_entries ptr64 ctx fbase shared (i # targets) =
     (case target_entries ptr64 ctx fbase shared i of
        None \<Rightarrow> None
      | Some (idxs, offs) \<Rightarrow>
          (case all_target_entries ptr64 ctx fbase shared targets of
             None \<Rightarrow> None
           | Some (idxs', offs') \<Rightarrow> Some (idxs @ idxs', offs @ offs')))"

definition setName :: "nat \<Rightarrow> string \<Rightarrow> llmodule \<Rightarrow> llmodule" where
  "setName g name M = update_gvar g (\<lambda>v. v\<lparr>g_name := name\<rparr>) M"

definition emit_metadata :: "bool \<Rightarrow> clone_ctx \<times> llmodule \<Rightarrow> abort + clone_ctx \<times> llmodule" where
  "emit_metadata ptr64 st =
     (let (ctx, M) = st; nfvars = length (c_fvars ctx) in
      if c_allow_bad_fvars ctx \<and> nfvars = 0 then Inr (ctx, M)
      else
        case (case map_of (m_flags M) ''julia.mv.suffix'' of
                None \<Rightarrow> Some []
              | Some (MString s) \<Rightarrow> Some s
              | Some (MInt n) \<Rightarrow> None) of
          None \<Rightarrow> Inl (Abort ''cast<MDString>(suffix_md)'' M)
        | Some suffix \<Rightarrow>
            let (fbase, M) = emit_offset_table ptr64 M (map CFunc (c_fvars ctx)) ''jl_fvar'' suffix;
                (gbase, M) = emit_offset_table ptr64 M (c_gvars ctx) ''jl_gvar'' suffix
            in case getGlobalVariable M ''jl_fvar_idxs'' of
                 None \<Rightarrow> Inl (Abort ''M.getGlobalVariable(jl_fvar_idxs)'' M)
               | Some fi \<Rightarrow>
            let M = setName (g_addr fi) (''jl_fvar_idxs'' @ suffix) M
            in case getGlobalVariable M ''jl_gvar_idxs'' of
                 None \<Rightarrow> Inl (Abort ''M.getGlobalVariable(jl_gvar_idxs)'' M)
               | Some gi \<Rightarrow>
            let M = setName (g_addr gi) (''jl_gvar_idxs'' @ suffix) M;
                ctx = ctx\<lparr>c_gv_relocs := sort_key snd (c_gv_relocs ctx)\<rparr>;
                (vals, rest, shared) =
                  foldl (\<lambda>st fid. slot_entries ptr64 ctx gbase fid st) ([], c_gv_relocs ctx, [])
                    [0..<nfvars];
                M = add_gvar (hidden_table (new_gvar_addr M) (''jl_clone_slots'' @ suffix)
                                (CInt32 (of_nat ((length vals + 1) div 2)) # vals)) M
            in case all_target_entries ptr64 ctx fbase shared [0..<length (c_specs ctx)] of
                 None \<Rightarrow> Inl (Abort ''cast<Function>(vmap->lookup(orig_f))'' M)
               | Some (idxs, offs) \<Rightarrow>
                   let M = add_gvar (hidden_table (new_gvar_addr M) (''jl_clone_idxs'' @ suffix)
                                       (map CInt32 idxs)) M;
                       M = add_gvar (hidden_table (new_gvar_addr M) (''jl_clone_offsets'' @ suffix)
                                       offs) M
                   in Inr (ctx, M))"

section \<open>The pass: \<^verbatim>\<open>runMultiVersioning\<close> (source lines 907 to 959)\<close>

text \<open>
  The build: whether pointers have 64 bits, and whether it is one of the platforms where
  a variadic trampoline aborts.
\<close>

record build =
  bld_ptr64 :: bool
  bld_no_musttail :: bool

definition is_const_array :: "llmodule \<Rightarrow> string \<Rightarrow> bool" where
  "is_const_array M name =
     (case getGlobalVariable M name of
        None \<Rightarrow> False
      | Some gv \<Rightarrow> (case g_init gv of Some (IArray cs) \<Rightarrow> True | _ \<Rightarrow> False))"

text \<open>What the pass returns, or its abort, and the module it leaves.\<close>

definition runMultiVersioning ::
  "build \<Rightarrow> jl_target_spec list \<Rightarrow> llmodule \<Rightarrow> bool \<Rightarrow> abort + bool \<times> llmodule" where
  "runMultiVersioning bld specs M allow_bad_fvars =
     (if m_name M = ''sysimage'' then Inr (False, M)
      else if allow_bad_fvars \<and> (\<not> is_const_array M ''jl_fvars'' \<or> \<not> is_const_array M ''jl_gvars'')
      then Inr (False, M)
      else
        case CloneCtx specs M allow_bad_fvars of Inl e \<Rightarrow> Inl e | Inr clone \<Rightarrow>
        case prepare_slots clone of Inl e \<Rightarrow> Inl e | Inr clone \<Rightarrow>
        case clone_decls clone of Inl e \<Rightarrow> Inl e | Inr clone \<Rightarrow>
        case clone_bodies clone of Inl e \<Rightarrow> Inl e | Inr clone \<Rightarrow>
        case fix_gv_uses (bld_no_musttail bld) clone of Inl e \<Rightarrow> Inl e | Inr clone \<Rightarrow>
        case fix_inst_uses clone of Inl e \<Rightarrow> Inl e | Inr clone \<Rightarrow>
        case emit_metadata (bld_ptr64 bld) clone of Inl e \<Rightarrow> Inl e | Inr clone \<Rightarrow>
        Inr (True, snd clone))"

section \<open>Properties of the phases\<close>

subsection \<open>The constructor\<close>

lemma group_targets_bad:
  assumes "i \<in> set targets" "flags (specs ! i) AND JL_TARGET_CLONE_ALL = 0"
    "\<not> (0 \<le> base (specs ! i) \<and> base (specs ! i) < int i)"
  shows "group_targets specs targets st = Inl ''0 <= spec.base && (unsigned) spec.base < i''"
  using assms(1)
proof (induction targets arbitrary: st)
  case Nil
  then show ?case by simp
next
  case (Cons k targets)
  show ?case
  proof (cases "group_target specs k st")
    case (Inl e)
    then have "e = ''0 <= spec.base && (unsigned) spec.base < i''"
      by (auto simp: group_target_def Let_def split: prod.splits if_splits)
    with Inl show ?thesis by simp
  next
    case (Inr st')
    have "k \<noteq> i"
    proof
      assume "k = i"
      with assms(2,3) have "group_target specs k st = Inl ''0 <= spec.base && (unsigned) spec.base < i''"
        by (auto simp: group_target_def Let_def split: prod.splits)
      with Inr show False by simp
    qed
    with Cons.prems have "i \<in> set targets" by simp
    from Cons.IH[OF this] Inr show ?thesis by simp
  qed
qed

lemma consume_gv_module:
  assumes "consume_gv is_fn M name allow = Inr (res, M')"
  shows "\<exists>gv. getGlobalVariable M name = Some gv \<and> M' = eraseFromParent (g_addr gv) M"
proof (cases "getGlobalVariable M name")
  case None
  with assms show ?thesis by (simp add: consume_gv_def)
next
  case (Some gv)
  with assms show ?thesis
    by (cases "g_init gv") (auto simp: consume_gv_def split: sum.splits if_splits)
qed

lemma consume_loop_abort:
  "consume_loop is_fn M allow ary i nele res = Inl e \<Longrightarrow> \<exists>msg. e = Abort msg M"
proof (induction is_fn M allow ary i nele res rule: consume_loop.induct)
  case (1 is_fn M allow_bad ary i nele res)
  from "1.prems" show ?case
    by (subst (asm) consume_loop.simps) (auto simp: Let_def split: if_splits dest: "1.IH")
qed

lemma consume_elems_abort:
  "consume_elems is_fn M allow init = Inl e \<Longrightarrow> \<exists>msg. e = Abort msg M"
  by (cases init) (auto simp: consume_elems_def Let_def split: if_splits dest: consume_loop_abort)

lemma consume_gv_abort:
  assumes "consume_gv is_fn M name allow = Inl e"
  shows "\<exists>msg. e = Abort msg M"
proof (cases "getGlobalVariable M name")
  case None
  with assms show ?thesis by (auto simp: consume_gv_def)
next
  case (Some gv)
  with assms show ?thesis
    by (cases "g_init gv")
       (auto simp: consume_gv_def split: sum.splits if_splits dest: consume_elems_abort)
qed

lemma getGlobalVariable_mem:
  "getGlobalVariable M name = Some gv \<Longrightarrow> gv \<in> set (m_globals M)"
  by (auto simp: getGlobalVariable_def find_Some_iff split: option.splits if_splits)

lemma eraseFromParent_erases: "\<forall>h \<in> set (m_globals (eraseFromParent g M)). g_addr h \<noteq> g"
  by (simp add: eraseFromParent_def)

lemma eraseFromParent_subset:
  "set (m_globals (eraseFromParent g M)) \<subseteq> set (m_globals M)"
  by (auto simp: eraseFromParent_def)

section \<open>The values of the emitted tables\<close>

text \<open>
  Modelled from the spec: the loader is not among the sources. When the image is laid
  out, every function and every global variable has an address; a constant expression
  then has a value, computed in the width of a pointer (64 bits, or 32 bits when \<open>ptr64\<close>
  is false). An entry of an offsets table is read as a signed 32-bit number, and the spec
  decodes the table by adding each stored delta to the base pointer.
\<close>

definition wrap :: "bool \<Rightarrow> 64 word \<Rightarrow> 64 word" where
  "wrap ptr64 x = (if ptr64 then x else take_bit 32 x)"

fun eval_cexpr :: "bool \<Rightarrow> (nat \<Rightarrow> 64 word) \<Rightarrow> (nat \<Rightarrow> 64 word) \<Rightarrow> cexpr \<Rightarrow> 64 word" where
  "eval_cexpr p fa ga CNull = 0"
| "eval_cexpr p fa ga (CInt32 w) = ucast w"
| "eval_cexpr p fa ga (CFunc f) = wrap p (fa f)"
| "eval_cexpr p fa ga (CGlobal g) = wrap p (ga g)"
| "eval_cexpr p fa ga (CPtrToInt c) = eval_cexpr p fa ga c"
| "eval_cexpr p fa ga (CAdd c n) = wrap p (eval_cexpr p fa ga c + of_nat n)"
| "eval_cexpr p fa ga (CSub a b) = wrap p (eval_cexpr p fa ga a - eval_cexpr p fa ga b)"
| "eval_cexpr p fa ga (CTrunc32 c) = take_bit 32 (eval_cexpr p fa ga c)"

definition table_values ::
  "bool \<Rightarrow> (nat \<Rightarrow> 64 word) \<Rightarrow> (nat \<Rightarrow> 64 word) \<Rightarrow> cexpr list \<Rightarrow> 32 word list" where
  "table_values p fa ga cs = map (\<lambda>c. ucast (eval_cexpr p fa ga c)) cs"

definition decode_offsets :: "bool \<Rightarrow> 64 word \<Rightarrow> 32 word list \<Rightarrow> 64 word list" where
  "decode_offsets p bas tab = map (\<lambda>d. wrap p (bas + scast d)) (tl tab)"

lemma scast_ucast_range:
  fixes d :: "64 word"
  assumes "- (2 ^ 31) \<le> sint d" "sint d < 2 ^ 31"
  shows "(scast (ucast d :: 32 word) :: 64 word) = d"
proof (rule signed_word_eqI)
  have "sint (scast (ucast d :: 32 word) :: 64 word) = sint (ucast d :: 32 word)"
    by (rule sint_up_scast) (simp add: is_up)
  also have "\<dots> = signed_take_bit 31 (uint d)"
    by (simp add: signed_ucast_eq)
  also have "\<dots> = signed_take_bit 31 (sint d)"
    by (simp add: uint_sint signed_take_bit_take_bit)
  also have "\<dots> = sint d"
    using assms by (intro signed_take_bit_int_eq_self) simp_all
  finally show "sint (scast (ucast d :: 32 word) :: 64 word) = sint d" .
qed

lemma take_bit_scast_ucast:
  fixes d :: "64 word"
  shows "take_bit 32 (scast (ucast d :: 32 word) :: 64 word) = take_bit 32 d"
  by (rule bit_eqI) (auto simp: bit_simps)

lemma ucast_take_bit_32:
  fixes d :: "64 word"
  shows "(ucast (take_bit 32 d) :: 32 word) = ucast d"
  by (rule bit_eqI) (auto simp: bit_simps)

lemma take_bit_add_word:
  fixes x y :: "64 word"
  shows "take_bit 32 (take_bit 32 x + take_bit 32 y) = take_bit 32 (x + y)"
  by (simp add: mask_eqs(7) take_bit_eq_mask)

lemma wrap32_round_trip:
  fixes a b :: "64 word"
  assumes "take_bit 32 a = a"
  shows "take_bit 32 (b + scast (ucast (a - b) :: 32 word)) = a"
proof -
  have "take_bit 32 (b + scast (ucast (a - b) :: 32 word))
      = take_bit 32 (take_bit 32 b + take_bit 32 (scast (ucast (a - b) :: 32 word) :: 64 word))"
    by (simp only: take_bit_add_word)
  also have "\<dots> = take_bit 32 (take_bit 32 b + take_bit 32 (a - b))"
    by (simp only: take_bit_scast_ucast)
  also have "\<dots> = take_bit 32 (b + (a - b))"
    by (simp only: take_bit_add_word)
  also have "\<dots> = a" using assms by simp
  finally show ?thesis .
qed

lemma take_bit_ucast_32:
  fixes w :: "32 word"
  shows "take_bit 32 (ucast w :: 64 word) = ucast w"
  by (rule bit_eqI) (auto simp: bit_simps dest: bit_imp_le_length)

lemma wrap_eval_cexpr: "wrap p (eval_cexpr p fa ga c) = eval_cexpr p fa ga c"
  by (induction c) (simp_all add: wrap_def take_bit_ucast_32)

lemma eval_get_ptrdiff32:
  "(ucast (eval_cexpr p fa ga (get_ptrdiff32 p v vbase)) :: 32 word)
     = ucast (eval_cexpr p fa ga v - eval_cexpr p fa ga vbase)"
  by (auto simp: get_ptrdiff32_def Let_def wrap_def ucast_take_bit_32)

text \<open>One entry, decoded: the address of the symbol, when the delta fits.\<close>

lemma decode_entry:
  assumes "p \<longrightarrow> - (2 ^ 31) \<le> sint (eval_cexpr p fa ga v - eval_cexpr p fa ga b)
              \<and> sint (eval_cexpr p fa ga v - eval_cexpr p fa ga b) < 2 ^ 31"
  shows "wrap p (eval_cexpr p fa ga b
                  + scast (ucast (eval_cexpr p fa ga (get_ptrdiff32 p v b)) :: 32 word))
           = eval_cexpr p fa ga v"
proof (cases p)
  case True
  with assms show ?thesis
    by (simp add: eval_get_ptrdiff32 scast_ucast_range wrap_def)
next
  case False
  then have "take_bit 32 (eval_cexpr p fa ga v) = eval_cexpr p fa ga v"
    using wrap_eval_cexpr[of p fa ga v] by (simp add: wrap_def)
  with False show ?thesis
    by (simp add: eval_get_ptrdiff32 wrap32_round_trip wrap_def)
qed

lemma list_as_nth:
  assumes "xs \<noteq> []"
  shows "xs = xs ! 0 # map (\<lambda>i. xs ! i) [1..<length xs]"
proof -
  have "[0..<length xs] = 0 # [1..<length xs]"
    using assms by (simp add: upt_conv_Cons)
  then have "map (\<lambda>i. xs ! i) [0..<length xs] = xs ! 0 # map (\<lambda>i. xs ! i) [1..<length xs]"
    by simp
  then show ?thesis by (simp only: map_nth)
qed

lemma ucast_ucast_32:
  fixes w :: "32 word"
  shows "(ucast (ucast w :: 64 word) :: 32 word) = w"
  by (rule bit_eqI) (auto simp: bit_simps dest: bit_imp_le_length)

subsection \<open>Fresh addresses and lookups\<close>










lemma find_func_distinct:
  assumes "distinct (map f_addr (m_funcs M))" and "F \<in> set (m_funcs M)"
  shows "find_func M (f_addr F) = Some F"
proof -
  from assms(2) obtain k where k: "k < length (m_funcs M)" "m_funcs M ! k = F"
    by (auto simp: in_set_conv_nth)
  have "\<forall>j < k. f_addr (m_funcs M ! j) \<noteq> f_addr F"
  proof (intro allI impI)
    fix j assume j: "j < k"
    with k have "j < length (map f_addr (m_funcs M))" "k < length (map f_addr (m_funcs M))" "j \<noteq> k"
      by simp_all
    with assms(1) have "map f_addr (m_funcs M) ! j \<noteq> map f_addr (m_funcs M) ! k"
      unfolding distinct_conv_nth by blast
    with k j show "f_addr (m_funcs M ! j) \<noteq> f_addr F" by simp
  qed
  with k show ?thesis unfolding find_func_def find_Some_iff by blast
qed

subsection \<open>\<^verbatim>\<open>prepare_slots\<close>\<close>





subsection \<open>The function ids\<close>





section \<open>Properties of the clone masks and the clone declarations\<close>

subsection \<open>The attributes that the annotator leaves\<close>

lemma length_subtarget_cloned_foldl:
  "length (subtarget_cloned st) = length origs \<Longrightarrow>
   length (subtarget_cloned (foldl (annotate_target cg origs func_infos specs) st targets))
     = length origs"
  by (induction targets arbitrary: st) (simp_all add: annotate_target_def Let_def)

lemma length_annotate_targets:
  "length (clones (annotate_targets cg origs func_infos specs)) = length origs"
  "length (subtarget_cloned (annotate_targets cg origs func_infos specs)) = length origs"
  by (simp_all add: annotate_targets_def length_clones_foldl length_subtarget_cloned_foldl)

lemma clones_bound:
  assumes "j < length origs"
  shows "clones (annotate_targets cg origs func_infos specs) ! j < 2 ^ length specs"
proof -
  let ?c = "clones (annotate_targets cg origs func_infos specs) ! j"
  have "take_bit (length specs) ?c = ?c"
    by (rule bit_eqI) (auto simp: bit_take_bit_iff bit_annotate_targets[OF assms])
  then show ?thesis by (simp add: take_bit_nat_eq_self_iff)
qed

lemma map_defs_addr:
  "(\<And>x F. f_addr (g x F) = f_addr F) \<Longrightarrow> map f_addr (map_defs g Fs xs) = map f_addr Fs"
  by (induction g Fs xs rule: map_defs.induct) (auto split: list.splits)

lemma map_defs_nth:
  assumes "length (filter (\<lambda>F. f_body F \<noteq> None) Fs) \<le> length xs"
    and "j < length (filter (\<lambda>F. f_body F \<noteq> None) Fs)"
  shows "g (xs ! j) (filter (\<lambda>F. f_body F \<noteq> None) Fs ! j) \<in> set (map_defs g Fs xs)"
  using assms
proof (induction Fs arbitrary: xs j)
  case Nil
  then show ?case by simp
next
  case (Cons F Fs)
  show ?case
  proof (cases "f_body F = None")
    case True
    with Cons show ?thesis by simp
  next
    case False
    with Cons.prems obtain x xs' where xs: "xs = x # xs'" by (cases xs) auto
    show ?thesis
    proof (cases j)
      case 0
      with False xs show ?thesis by auto
    next
      case (Suc k)
      with False xs Cons.prems Cons.IH[of xs' k] show ?thesis by auto
    qed
  qed
qed

lemma map_defs_decl:
  assumes "F \<in> set Fs" and "f_body F = None"
    and "length (filter (\<lambda>F. f_body F \<noteq> None) Fs) \<le> length xs"
  shows "F \<in> set (map_defs g Fs xs)"
  using assms
proof (induction Fs arbitrary: xs)
  case Nil
  then show ?case by simp
next
  case (Cons G Fs)
  show ?case
  proof (cases "f_body G = None")
    case True
    with Cons show ?thesis by auto
  next
    case False
    with Cons.prems obtain x xs' where xs: "xs = x # xs'" by (cases xs) auto
    from False Cons.prems have "F \<in> set Fs" by auto
    with False xs Cons.prems Cons.IH[of xs'] show ?thesis by auto
  qed
qed

lemma m_funcs_annotate:
  "m_funcs (annotate_module_clones specs M)
     = (let origs = map f_addr (defined_funcs M);
            st = annotate_targets (call_graph M) origs
                   (fst (collect_infos (defined_funcs M) False)) specs
        in map_defs (\<lambda>(c, sub) F. mark_clones c (if check_relocs st then mark_relocs M sub F else F))
             (m_funcs M) (zip (clones st) (subtarget_cloned st)))"
  by (simp add: annotate_module_clones_def Let_def split_beta)

lemma mark_relocs_keeps:
  "f_addr (mark_relocs M sub F) = f_addr F" "f_name (mark_relocs M sub F) = f_name F"
  "f_body (mark_relocs M sub F) = f_body F"
  "map_of (f_attrs (mark_relocs M sub F)) ''julia.mv.clones''
     = map_of (f_attrs F) ''julia.mv.clones''"
  by (simp_all add: mark_relocs_def addFnAttr_def Let_def update_conv')

lemma mark_clones_keeps:
  "f_addr (mark_clones c F) = f_addr F" "f_name (mark_clones c F) = f_name F"
  "f_body (mark_clones c F) = f_body F"
  by (simp_all add: mark_clones_def addFnAttr_def)

lemma clone_mask_of_mark_clones:
  assumes "c < 2 ^ n"
  shows "clone_mask_of n (mark_clones c F) = (if c \<noteq> 0 then Some c else clone_mask_of n F)"
  using APInt_roundtrip[OF assms]
  by (simp add: clone_mask_of_def mark_clones_def addFnAttr_def update_conv')

lemma hasFnAttribute_mark_clones:
  "hasFnAttribute (mark_clones c F) ''julia.mv.clones''
     \<longleftrightarrow> c \<noteq> 0 \<or> hasFnAttribute F ''julia.mv.clones''"
  by (simp add: hasFnAttribute_def mark_clones_def addFnAttr_def update_conv')

text \<open>
  What the annotator leaves of a definition: the function at the same address, with the
  same name and body, whose clone mask is the \<open>j\<close>-th mask of the propagator when that is
  not zero, and the mask of the input otherwise.
\<close>

lemma annotate_definition:
  assumes "distinct (map f_addr (m_funcs M))" and "j < length (defined_funcs M)"
  shows "\<exists>F'. find_func (annotate_module_clones specs M) (f_addr (defined_funcs M ! j)) = Some F'
      \<and> f_name F' = f_name (defined_funcs M ! j) \<and> f_body F' = f_body (defined_funcs M ! j)
      \<and> (let c = clones (annotate_targets (call_graph M) (map f_addr (defined_funcs M))
                    (fst (collect_infos (defined_funcs M) False)) specs) ! j
         in clone_mask_of (length specs) F'
              = (if c \<noteq> 0 then Some c else clone_mask_of (length specs) (defined_funcs M ! j))
          \<and> (hasFnAttribute F' ''julia.mv.clones''
               \<longleftrightarrow> c \<noteq> 0 \<or> hasFnAttribute (defined_funcs M ! j) ''julia.mv.clones''))"
proof -
  define origs where "origs = map f_addr (defined_funcs M)"
  define st where "st = annotate_targets (call_graph M) origs
                          (fst (collect_infos (defined_funcs M) False)) specs"
  define upd where "upd = (\<lambda>(c, sub) F. mark_clones c
                             (if check_relocs st then mark_relocs M sub F else F))"
  define xs where "xs = zip (clones st) (subtarget_cloned st)"
  define F where "F = defined_funcs M ! j"
  define F1 where "F1 = (if check_relocs st then mark_relocs M (subtarget_cloned st ! j) F else F)"
  have funcs: "m_funcs (annotate_module_clones specs M) = map_defs upd (m_funcs M) xs"
    by (simp add: m_funcs_annotate Let_def upd_def xs_def st_def origs_def)
  have len: "length xs = length (defined_funcs M)"
    by (simp add: xs_def st_def length_annotate_targets origs_def)
  have j: "j < length origs" using assms(2) by (simp add: origs_def)
  have addr: "\<And>x G. f_addr (upd x G) = f_addr G"
    by (simp add: upd_def split_beta mark_clones_keeps mark_relocs_keeps)
  have d: "distinct (map f_addr (m_funcs (annotate_module_clones specs M)))"
    using assms(1) by (simp add: funcs map_defs_addr[of upd, OF addr])
  have xj: "xs ! j = (clones st ! j, subtarget_cloned st ! j)"
    using assms(2) len by (simp add: xs_def)
  have "upd (xs ! j) F \<in> set (map_defs upd (m_funcs M) xs)"
    unfolding F_def defined_funcs_def
    by (rule map_defs_nth) (use assms(2) len in \<open>simp_all add: defined_funcs_def\<close>)
  then have mem: "mark_clones (clones st ! j) F1 \<in> set (m_funcs (annotate_module_clones specs M))"
    by (simp add: funcs xj upd_def F1_def)
  have a1: "f_addr (mark_clones (clones st ! j) F1) = f_addr F"
    and n1: "f_name (mark_clones (clones st ! j) F1) = f_name F"
    and b1: "f_body (mark_clones (clones st ! j) F1) = f_body F"
    and m1: "clone_mask_of (length specs) F1 = clone_mask_of (length specs) F"
    and h1: "hasFnAttribute F1 ''julia.mv.clones'' = hasFnAttribute F ''julia.mv.clones''"
    by (simp_all add: F1_def mark_clones_keeps mark_relocs_keeps clone_mask_of_def
        hasFnAttribute_def)
  from find_func_distinct[OF d mem]
  have f: "find_func (annotate_module_clones specs M) (f_addr F)
             = Some (mark_clones (clones st ! j) F1)"
    by (simp add: a1)
  have bound: "clones st ! j < 2 ^ length specs"
    unfolding st_def by (rule clones_bound[OF j])
  show ?thesis
    unfolding Let_def F_def[symmetric] origs_def[symmetric] st_def[symmetric]
    using f n1 b1 clone_mask_of_mark_clones[OF bound, of F1] m1 h1
      hasFnAttribute_mark_clones[of "clones st ! j" F1]
    by simp
qed

lemma annotate_declaration:
  assumes "distinct (map f_addr (m_funcs M))" and "F \<in> set (m_funcs M)" and "f_body F = None"
  shows "find_func (annotate_module_clones specs M) (f_addr F) = Some F"
proof -
  define st where "st = annotate_targets (call_graph M) (map f_addr (defined_funcs M))
                          (fst (collect_infos (defined_funcs M) False)) specs"
  define upd where "upd = (\<lambda>(c, sub) F. mark_clones c
                             (if check_relocs st then mark_relocs M sub F else F))"
  define xs where "xs = zip (clones st) (subtarget_cloned st)"
  have funcs: "m_funcs (annotate_module_clones specs M) = map_defs upd (m_funcs M) xs"
    by (simp add: m_funcs_annotate Let_def upd_def xs_def st_def)
  have len: "length xs = length (defined_funcs M)"
    by (simp add: xs_def st_def length_annotate_targets)
  have addr: "\<And>x G. f_addr (upd x G) = f_addr G"
    by (simp add: upd_def split_beta mark_clones_keeps mark_relocs_keeps)
  have d: "distinct (map f_addr (m_funcs (annotate_module_clones specs M)))"
    using assms(1) by (simp add: funcs map_defs_addr[of upd, OF addr])
  have "F \<in> set (map_defs upd (m_funcs M) xs)"
    by (rule map_defs_decl[OF assms(2,3)]) (simp add: len defined_funcs_def)
  then have "F \<in> set (m_funcs (annotate_module_clones specs M))" by (simp add: funcs)
  from find_func_distinct[OF d this] show ?thesis .
qed

subsection \<open>The declarations that \<^verbatim>\<open>clone_decls\<close> creates for one function\<close>

lemma clone_decl_funcs:
  assumes "clone_decl F i (ctx, N) = Inr (ctx', N')"
  shows "m_funcs N' = m_funcs N @ [new_decl (new_func_addr N) F (''.'' @ to_string i)]"
    and "c_specs ctx' = c_specs ctx" and "c_linearized ctx' = c_linearized ctx"
  using assms
  by (auto simp: clone_decl_def Let_def add_func_def split: sum.splits if_splits)

lemma clone_decl_fold:
  assumes "fold_abort (clone_decl F) ks (ctx, N) = Inr (ctx', N')"
  shows "\<exists>new. m_funcs N' = m_funcs N @ new
      \<and> map f_name new = map (\<lambda>k. f_name F @ ''.'' @ to_string k) ks
      \<and> list_all (\<lambda>G. f_body G = None) new"
  using assms
proof (induction ks arbitrary: ctx N)
  case Nil
  then show ?case by simp
next
  case (Cons k ks)
  then obtain ctx1 N1 where s: "clone_decl F k (ctx, N) = Inr (ctx1, N1)"
    and r: "fold_abort (clone_decl F) ks (ctx1, N1) = Inr (ctx', N')"
    by (auto split: sum.splits)
  from Cons.IH[OF r] obtain new where new: "m_funcs N' = m_funcs N1 @ new"
    "map f_name new = map (\<lambda>k. f_name F @ ''.'' @ to_string k) ks"
    "list_all (\<lambda>G. f_body G = None) new" by blast
  let ?d = "new_decl (new_func_addr N) F (''.'' @ to_string k)"
  from clone_decl_funcs(1)[OF s] new
  have "m_funcs N' = m_funcs N @ (?d # new)"
    "map f_name (?d # new) = map (\<lambda>k. f_name F @ ''.'' @ to_string k) (k # ks)"
    "list_all (\<lambda>G. f_body G = None) (?d # new)"
    by (simp_all add: new_decl_def)
  then show ?case by blast
qed

lemma clone_decls_of_funcs:
  assumes "clone_decls_of a (ctx, N) = Inr (ctx', N')" and "find_func N a = Some F"
  shows "(\<not> hasFnAttribute F ''julia.mv.clones'' \<longrightarrow> N' = N \<and> ctx' = ctx)
    \<and> (hasFnAttribute F ''julia.mv.clones'' \<longrightarrow>
         (\<exists>c new. clone_mask_of (length (c_specs ctx)) F = Some c
            \<and> m_funcs N' = m_funcs N @ new
            \<and> map f_name new
                = map (\<lambda>k. f_name F @ ''.'' @ to_string k) (clone_targets (length (c_specs ctx)) c)
            \<and> list_all (\<lambda>G. f_body G = None) new))"
proof (cases "hasFnAttribute F ''julia.mv.clones''")
  case False
  with assms show ?thesis by (simp add: clone_decls_of_def)
next
  case True
  with assms obtain c where c: "clone_mask_of (length (c_specs ctx)) F = Some c"
    and f: "fold_abort (clone_decl F) (clone_targets (length (c_specs ctx)) c) (ctx, N)
              = Inr (ctx', N')"
    by (auto simp: clone_decls_of_def split: option.splits)
  from clone_decl_fold[OF f] c True show ?thesis by auto
qed

lemma count_list_distinct:
  "distinct xs \<Longrightarrow> count_list xs x = (if x \<in> set xs then 1 else 0)"
  by (induction xs) auto

lemma count_clone_targets:
  "count_list (clone_targets n c) i = (if 0 < i \<and> i < n \<and> bit c i then 1 else 0)"
proof -
  have "distinct (clone_targets n c)" by (simp add: clone_targets_def)
  from count_list_distinct[OF this] show ?thesis
    by (auto simp: clone_targets_def)
qed

section \<open>Concrete inputs\<close>

text \<open>
  A two-instruction body: a call of \<^verbatim>\<open>llvm.fma.v4f32\<close> on vectors, then an instruction
  with a half-precision operand.
\<close>

definition fma_vec_call :: inst where
  "fma_vec_call =
     \<lparr>i_kind = CallInst True (Some \<lparr>callee_name = ''llvm.fma.v4f32'', always_have_fma = None\<rparr>),
      i_type_is_vector = True, i_fast_math_any = False, i_tail = TCK_None,
      i_operands = [\<lparr>op_is_half = False, op_ref = ROther\<rparr>]\<rparr>"

definition half_add :: inst where
  "half_add =
     \<lparr>i_kind = OtherInst, i_type_is_vector = False, i_fast_math_any = False, i_tail = TCK_None,
      i_operands = [\<lparr>op_is_half = True, op_ref = ROther\<rparr>, \<lparr>op_is_half = True, op_ref = ROther\<rparr>]\<rparr>"

definition fma_then_half :: fbody where
  "fma_then_half = \<lparr>b_has_loop = False, b_insts = [fma_vec_call, half_add]\<rparr>"

text \<open>Scalar functions without parameters, made of direct calls and a return.\<close>

definition plain_type :: ftype where
  "plain_type = \<lparr>ft_is_vector = False, ft_is_vararg = False, ft_ret_void = True, ft_params_half = []\<rparr>"

definition call_of :: "nat \<Rightarrow> inst" where
  "call_of f =
     \<lparr>i_kind = CallInst False (Some \<lparr>callee_name = ''callee'', always_have_fma = None\<rparr>),
      i_type_is_vector = False, i_fast_math_any = False, i_tail = TCK_None,
      i_operands = [\<lparr>op_is_half = False, op_ref = RFunc f\<rparr>]\<rparr>"

definition ret_void :: inst where
  "ret_void =
     \<lparr>i_kind = RetInst, i_type_is_vector = False, i_fast_math_any = False, i_tail = TCK_None,
      i_operands = []\<rparr>"

definition mk_def :: "nat \<Rightarrow> string \<Rightarrow> bool \<Rightarrow> nat list \<Rightarrow> func" where
  "mk_def a name loop callees =
     \<lparr>f_addr = a, f_name = name, f_type = plain_type, f_linkage = ExternalLinkage,
      f_visibility = DefaultVisibility, f_attrs = [],
      f_body = Some \<lparr>b_has_loop = loop, b_insts = map call_of callees @ [ret_void]\<rparr>,
      f_callees = map Some callees\<rparr>"

definition mk_decl :: "nat \<Rightarrow> string \<Rightarrow> (string \<times> string) list \<Rightarrow> func" where
  "mk_decl a name attrs =
     \<lparr>f_addr = a, f_name = name, f_type = plain_type, f_linkage = ExternalLinkage,
      f_visibility = DefaultVisibility, f_attrs = attrs, f_body = None, f_callees = [None]\<rparr>"


definition baseline :: jl_target_spec where
  "baseline = \<lparr>cpu_name = ''generic'', cpu_features = [], flags = 0, base = 0\<rparr>"

definition loop_specs :: "jl_target_spec list" where
  "loop_specs =
     [baseline,
      \<lparr>cpu_name = ''haswell'', cpu_features = ''+avx2'', flags = JL_TARGET_CLONE_LOOP, base = 0\<rparr>]"

text \<open>
  A module as the pass receives it: \<^verbatim>\<open>kernel\<close> (address 1, with a loop) is exported,
  \<^verbatim>\<open>caller\<close> (2) calls it; the export tables \<^verbatim>\<open>jl_fvars\<close> and \<^verbatim>\<open>jl_gvars\<close> and the two
  index tables are in place. \<open>attrs\<close> are the attributes of \<^verbatim>\<open>kernel\<close>.
\<close>

definition table :: "nat \<Rightarrow> string \<Rightarrow> cexpr list \<Rightarrow> gvar" where
  "table a name cs =
     \<lparr>g_addr = a, g_name = name, g_linkage = ExternalLinkage, g_visibility = DefaultVisibility,
      g_constant = True, g_init = Some (IArray cs)\<rparr>"

definition export_tables :: "gvar list" where
  "export_tables =
     [table 1 ''jl_fvars'' [CFunc 1], table 2 ''jl_gvars'' [],
      table 3 ''jl_fvar_idxs'' [CInt32 0], table 4 ''jl_gvar_idxs'' []]"

definition image :: "string \<Rightarrow> (string \<times> string) list \<Rightarrow> llmodule" where
  "image name attrs =
     \<lparr>m_name = name,
      m_funcs = [(mk_def 1 ''kernel'' True [])\<lparr>f_attrs := attrs\<rparr>, mk_def 2 ''caller'' False [1]],
      m_globals = export_tables, m_aliases = [], m_flags = []\<rparr>"

text \<open>A target list whose subtarget names itself as its base.\<close>

definition bad_base_specs :: "jl_target_spec list" where
  "bad_base_specs =
     [baseline,
      \<lparr>cpu_name = ''haswell'', cpu_features = ''+avx2'', flags = JL_TARGET_CLONE_LOOP, base = 1\<rparr>]"

definition build64 :: build where
  "build64 = \<lparr>bld_ptr64 = True, bld_no_musttail = False\<rparr>"


text \<open>
  A target list with a clone-all target, an alias of \<^verbatim>\<open>kernel\<close>, and the image with that
  alias; the image with one more function, the declaration \<^verbatim>\<open>extern_fn\<close> (address 3)
  with the attributes \<open>attrs\<close>.
\<close>

definition clone_all_specs :: "jl_target_spec list" where
  "clone_all_specs =
     [baseline,
      \<lparr>cpu_name = ''haswell'', cpu_features = ''+avx2'', flags = JL_TARGET_CLONE_ALL, base = 0\<rparr>]"

definition kernel_alias :: galias where
  "kernel_alias =
     \<lparr>a_addr = 1, a_name = ''kernel_alias'', a_linkage = ExternalLinkage,
      a_visibility = DefaultVisibility, a_aliasee = CFunc 1\<rparr>"

definition aliased_image :: "(string \<times> string) list \<Rightarrow> llmodule" where
  "aliased_image attrs = (image ''text'' attrs)\<lparr>m_aliases := [kernel_alias]\<rparr>"

definition import_image :: "(string \<times> string) list \<Rightarrow> llmodule" where
  "import_image attrs =
     (image ''text'' [])\<lparr>m_funcs := m_funcs (image ''text'' []) @ [mk_decl 3 ''extern_fn'' attrs]\<rparr>"

text \<open>
  An image where \<^verbatim>\<open>kernel\<close> (address 1, with a loop, exported) is called by \<^verbatim>\<open>hot_caller\<close>
  (2, with a loop) and by \<^verbatim>\<open>cold_caller\<close> (3, without one). \<open>attrs\<close> are the attributes of
  the two functions with a loop.
\<close>

definition dispatch_image :: "(string \<times> string) list \<Rightarrow> llmodule" where
  "dispatch_image attrs =
     \<lparr>m_name = ''text'',
      m_funcs = [(mk_def 1 ''kernel'' True [])\<lparr>f_attrs := attrs\<rparr>,
                 (mk_def 2 ''hot_caller'' True [1])\<lparr>f_attrs := attrs\<rparr>,
                 mk_def 3 ''cold_caller'' False [1]],
      m_globals = export_tables, m_aliases = [], m_flags = []\<rparr>"
section \<open>Running the phases on the concrete inputs\<close>

lemmas image_defs = image_def aliased_image_def import_image_def kernel_alias_def
  export_tables_def table_def mk_def_def mk_decl_def call_of_def ret_void_def plain_type_def
  baseline_def loop_specs_def clone_all_specs_def build64_def
  JL_TARGET_CLONE_ALL_def JL_TARGET_CLONE_LOOP_def JL_TARGET_CLONE_MATH_def
  JL_TARGET_CLONE_SIMD_def JL_TARGET_CLONE_CPU_def JL_TARGET_CLONE_FLOAT16_def clone_mask_def

lemmas annotate_defs = annotate_module_clones_def defined_funcs_def collect_func_info_def
  scan_inst_def scan_call_def annotate_targets_def annotate_target_def call_graph_def
  target_clone_set_def clone_closure_def seed_set_def set_insert_def cg_node_def
  calling_clone_def mark_clones_def mark_relocs_def has_inst_use_def inst_uses_func_def
  gv_uses_def gvar_uses_def gvar_leaves_def addFnAttr_def toStringUnsigned.simps hex_char_def
  Let_def

lemmas ctx_defs = CloneCtx_def consume_gv_def consume_elems_def consume_loop.simps
  getGlobalVariable_def use_empty_def gvar_leaves_of_def eraseFromParent_def group_target_def
  linearize_def linearize_group_def make_func_ids_def in_orig_funcs_def the_funcs_def
  hasFnAttribute_def add_clone_def enumerate_eq_zip

lemmas pass_defs = prepare_slots_def prepare_slot_def find_func_def get_func_id_def
  const_slot_def extern_slot_def add_gvar_def new_gvar_addr_def
  clone_decls_def clone_decls_of_def clone_mask_of_def clone_targets_def clone_decl_def
  APInt_fromString_def getDigit_def new_decl_def add_func_def new_func_addr_def fresh_addr_def
  set_vmap_def to_string.simps clone_bodies_def clone_group_body_def clone_target_body_def
  map_get_def base_func_def is_declaration_def clone_function_def add_identity_def
  body_funcs_def remap_inst_def remap_ref_def add_features_def update_func_def addFnAttr_def
  JL_TARGET_OPTSIZE_def JL_TARGET_MINSIZE_def fix_gv_uses_def fix_inst_uses_def
  fix_inst_use_def has_subtarget_clone_def has_tagged_use_def in_group_def inst_uses_func_def
  get_reloc_slot_def hasFnAttribute_def Let_def upt_rec

lemma bit_two_one: "bit (Suc (Suc 0)) (Suc 0)"
  by (simp add: bit_iff_odd)

lemma annotate_dispatch_image:
  "annotate_module_clones loop_specs (dispatch_image [])
     = dispatch_image [(''julia.mv.clones'', ''2'')]"
  by (simp add: annotate_defs image_defs dispatch_image_def)

lemma ctx_dispatch_image:
  "CloneCtx loop_specs (dispatch_image [(''julia.mv.clones'', ''2'')]) False
    = Inr (\<lparr>c_specs = loop_specs,
         c_groups = [\<lparr>idx = 0, vmap = [], grp_clones = [\<lparr>idx = 1, vmap = []\<rparr>]\<rparr>],
         c_linearized = [TGroup 0, TClone 0 0], c_fvars = [1], c_gvars = [],
         c_func_ids = [(1, 1)], c_orig_funcs = [1, 2, 3], c_cloned = [],
         c_gv_relocs = [], c_const_relocs = [], c_extern_relocs = [],
         c_allow_bad_fvars = False\<rparr>,
        (dispatch_image [(''julia.mv.clones'', ''2'')])\<lparr>m_globals := [table 3 ''jl_fvar_idxs'' [CInt32 0],
                                                   table 4 ''jl_gvar_idxs'' []]\<rparr>)"
  by (simp add: ctx_defs image_defs dispatch_image_def)

section \<open>Properties of the feature analyzer\<close>

text \<open>
  Claim C2 (the code at the failing input). On the body \<open>fma_then_half\<close> the early exit of
  \<^verbatim>\<open>collect_func_info\<close> fires after the first instruction and returns clone-simd and
  clone-math only, while the scan of the whole body also sets clone-float16: the flag is
  lost by exiting early.
\<close>

theorem collect_func_info_early_exit_loses_float16:
  "collect_func_info False fma_then_half False
     = (JL_TARGET_CLONE_SIMD OR JL_TARGET_CLONE_MATH, True)
   \<and> full_scan_func_info False fma_then_half False
     = (JL_TARGET_CLONE_SIMD OR JL_TARGET_CLONE_MATH OR JL_TARGET_CLONE_FLOAT16, True)
   \<and> fst (collect_func_info False fma_then_half False) AND JL_TARGET_CLONE_FLOAT16 = 0
   \<and> fst (full_scan_func_info False fma_then_half False) AND JL_TARGET_CLONE_FLOAT16 \<noteq> 0"
  by (simp add: collect_func_info_def full_scan_func_info_def fma_then_half_def
      fma_vec_call_def half_add_def scan_inst_def scan_call_def
      JL_TARGET_CLONE_SIMD_def JL_TARGET_CLONE_MATH_def JL_TARGET_CLONE_FLOAT16_def)

section \<open>Properties of the clone-set propagator\<close>




section \<open>Properties of the pass\<close>

text \<open>
  The spec's malformed target list: some target that is not clone-all has a base index
  that is not below its own index.
\<close>

definition malformed_targets :: "jl_target_spec list \<Rightarrow> bool" where
  "malformed_targets specs \<longleftrightarrow>
     (\<exists>i. 0 < i \<and> i < length specs \<and> flags (specs ! i) AND JL_TARGET_CLONE_ALL = 0
          \<and> \<not> (0 \<le> base (specs ! i) \<and> base (specs ! i) < int i))"

text \<open>
  Claim C3, as stated, fails. With a subtarget that names itself as its base the pass
  aborts on the assertion of line 382, but by then the member initializers of the
  constructor have consumed both export tables: \<^verbatim>\<open>jl_fvars\<close> and \<^verbatim>\<open>jl_gvars\<close> are in
  the module before the run and erased from the module that the abort leaves.
\<close>

theorem malformed_targets_abort_after_consuming:
  "getGlobalVariable (image ''text'' []) ''jl_fvars'' = Some (table 1 ''jl_fvars'' [CFunc 1])
   \<and> getGlobalVariable (image ''text'' []) ''jl_gvars'' = Some (table 2 ''jl_gvars'' [])
   \<and> runMultiVersioning build64 bad_base_specs (image ''text'' []) False
       = Inl (Abort ''0 <= spec.base && (unsigned) spec.base < i''
               ((image ''text'' [])\<lparr>m_globals := [table 3 ''jl_fvar_idxs'' [CInt32 0],
                                                   table 4 ''jl_gvar_idxs'' []]\<rparr>))"
  by (simp add: runMultiVersioning_def CloneCtx_def consume_gv_def consume_elems_def
      consume_loop.simps getGlobalVariable_def image_def export_tables_def table_def
      use_empty_def gvar_leaves_of_def eraseFromParent_def mk_def_def call_of_def ret_void_def
      bad_base_specs_def baseline_def group_target_def JL_TARGET_CLONE_LOOP_def
      JL_TARGET_CLONE_ALL_def)

text \<open>
  Claim C3, amended. If the target list is malformed and the pass is not skipped (the
  module is not named \<^verbatim>\<open>sysimage\<close> and the relaxed mode does not reject the export
  tables), the pass aborts, and the module it leaves differs from the input at most by
  the erased export tables: nothing is created and no other symbol is changed. When both
  tables can be consumed, the abort is the assertion on the base index, and it comes
  after both tables have been erased.
\<close>

theorem malformed_targets_abort:
  assumes "malformed_targets specs" and "m_name M \<noteq> ''sysimage''"
    and "\<not> (allow_bad \<and> (\<not> is_const_array M ''jl_fvars'' \<or> \<not> is_const_array M ''jl_gvars''))"
  shows "(\<exists>msg M'. runMultiVersioning bld specs M allow_bad = Inl (Abort msg M')
           \<and> (M' = M
               \<or> (\<exists>f. getGlobalVariable M ''jl_fvars'' = Some f
                     \<and> (M' = eraseFromParent (g_addr f) M
                         \<or> (\<exists>g. getGlobalVariable (eraseFromParent (g_addr f) M) ''jl_gvars'' = Some g
                               \<and> M' = eraseFromParent (g_addr g) (eraseFromParent (g_addr f) M))))))
       \<and> (\<forall>fv M1 gv M2. consume_gv True M ''jl_fvars'' allow_bad = Inr (fv, M1)
             \<longrightarrow> consume_gv False M1 ''jl_gvars'' False = Inr (gv, M2)
             \<longrightarrow> runMultiVersioning bld specs M allow_bad
                   = Inl (Abort ''0 <= spec.base && (unsigned) spec.base < i'' M2)
                 \<and> getGlobalVariable M ''jl_fvars'' \<noteq> None
                 \<and> M2 \<noteq> M)"
proof -
  from assms(1) obtain i where i: "0 < i" "i < length specs"
    "flags (specs ! i) AND JL_TARGET_CLONE_ALL = 0"
    "\<not> (0 \<le> base (specs ! i) \<and> base (specs ! i) < int i)"
    by (auto simp: malformed_targets_def)
  then have ne: "specs \<noteq> []" and mem: "i \<in> set [1..<length specs]" by auto
  note bad = group_targets_bad[OF mem i(3,4)]
  show ?thesis
  proof (cases "consume_gv True M ''jl_fvars'' allow_bad")
    case (Inl e)
    with consume_gv_abort[OF Inl] assms(2,3) show ?thesis
      by (auto simp: runMultiVersioning_def CloneCtx_def)
  next
    case (Inr r)
    obtain fv M1 where r: "r = (fv, M1)" by (cases r)
    from consume_gv_module[OF Inr[unfolded r]] obtain f where
      f: "getGlobalVariable M ''jl_fvars'' = Some f" "M1 = eraseFromParent (g_addr f) M"
      by auto
    show ?thesis
    proof (cases "consume_gv False M1 ''jl_gvars'' False")
      case (Inl e)
      with consume_gv_abort[OF Inl] Inr r f assms(2,3) show ?thesis
        by (auto simp: runMultiVersioning_def CloneCtx_def)
    next
      case Inr2: (Inr r2)
      obtain gv M2 where r2: "r2 = (gv, M2)" by (cases r2)
      from consume_gv_module[OF Inr2[unfolded r2]] obtain g where
        g: "getGlobalVariable M1 ''jl_gvars'' = Some g" "M2 = eraseFromParent (g_addr g) M1"
        by auto
      have run: "runMultiVersioning bld specs M allow_bad
                   = Inl (Abort ''0 <= spec.base && (unsigned) spec.base < i'' M2)"
        using assms(2,3) Inr r Inr2 r2 ne bad
        by (simp add: runMultiVersioning_def CloneCtx_def)
      have "f \<in> set (m_globals M)" by (rule getGlobalVariable_mem[OF f(1)])
      moreover have "f \<notin> set (m_globals M2)"
        using eraseFromParent_erases[of "g_addr f" M] eraseFromParent_subset[of "g_addr g" M1]
        unfolding f(2) g(2) by auto
      ultimately have "M2 \<noteq> M" by auto
      with run f g Inr r Inr2 r2 show ?thesis by auto
    qed
  qed
qed


theorem malformed_targets_abort_witness:
  "malformed_targets bad_base_specs \<and> m_name (image ''text'' []) \<noteq> ''sysimage''
   \<and> (\<exists>fv M1 gv M2. consume_gv True (image ''text'' []) ''jl_fvars'' False = Inr (fv, M1)
         \<and> consume_gv False M1 ''jl_gvars'' False = Inr (gv, M2)
         \<and> runMultiVersioning build64 bad_base_specs (image ''text'' []) False
             = Inl (Abort ''0 <= spec.base && (unsigned) spec.base < i'' M2)
         \<and> M2 \<noteq> image ''text'' [])"
proof -
  have m: "malformed_targets bad_base_specs"
    unfolding malformed_targets_def
    by (rule exI[of _ 1])
       (simp add: bad_base_specs_def JL_TARGET_CLONE_LOOP_def JL_TARGET_CLONE_ALL_def)
  have n: "m_name (image ''text'' []) \<noteq> ''sysimage''" by (simp add: image_def)
  have g: "\<not> (False \<and> (\<not> is_const_array (image ''text'' []) ''jl_fvars''
                      \<or> \<not> is_const_array (image ''text'' []) ''jl_gvars''))" by simp
  obtain fv M1 where c1: "consume_gv True (image ''text'' []) ''jl_fvars'' False = Inr (fv, M1)"
    by (simp add: consume_gv_def consume_elems_def consume_loop.simps getGlobalVariable_def
        image_def export_tables_def table_def use_empty_def gvar_leaves_of_def mk_def_def
        call_of_def ret_void_def)
  then have M1: "M1 = (image ''text'' [])\<lparr>m_globals := [table 2 ''jl_gvars'' [],
      table 3 ''jl_fvar_idxs'' [CInt32 0], table 4 ''jl_gvar_idxs'' []]\<rparr>"
    by (auto simp add: consume_gv_def consume_elems_def consume_loop.simps getGlobalVariable_def
        image_def export_tables_def table_def use_empty_def gvar_leaves_of_def mk_def_def
        call_of_def ret_void_def eraseFromParent_def)
  obtain gv M2 where c2: "consume_gv False M1 ''jl_gvars'' False = Inr (gv, M2)"
    unfolding M1
    by (simp add: consume_gv_def consume_elems_def consume_loop.simps getGlobalVariable_def
        image_def export_tables_def table_def use_empty_def gvar_leaves_of_def mk_def_def
        call_of_def ret_void_def)
  from malformed_targets_abort[OF m n g, of build64, THEN conjunct2, rule_format, OF c1 c2]
  have "runMultiVersioning build64 bad_base_specs (image ''text'' []) False
             = Inl (Abort ''0 <= spec.base && (unsigned) spec.base < i'' M2)
        \<and> M2 \<noteq> image ''text'' []" by simp
  with m n c1 c2 show ?thesis by blast
qed

text \<open>
  Claim C10. A module named \<^verbatim>\<open>sysimage\<close> is returned as it is, with the result
  \<^verbatim>\<open>false\<close>, whatever the targets, the relaxed mode and the module's contents: no phase
  of the pass runs.
\<close>

theorem sysimage_module_unchanged:
  "m_name M = ''sysimage'' \<Longrightarrow> runMultiVersioning bld specs M allow_bad = Inr (False, M)"
  by (simp add: runMultiVersioning_def)

theorem sysimage_module_unchanged_witness:
  "m_name (image ''sysimage'' []) = ''sysimage''
   \<and> runMultiVersioning build64 bad_base_specs (image ''sysimage'' []) False
       = Inr (False, image ''sysimage'' [])"
proof -
  have n: "m_name (image ''sysimage'' []) = ''sysimage''" by (simp add: image_def)
  from sysimage_module_unchanged[OF n] n show ?thesis by simp
qed

section \<open>Properties of the metadata emitter\<close>

text \<open>
  Claim C4, as stated, fails on the 64-bit build, where \<^verbatim>\<open>get_ptrdiff32\<close> truncates the
  difference of two addresses to 32 bits. Two symbols laid out \<open>2 ^ 32\<close> bytes apart get
  the table \<open>[2, 0, 0]\<close>, which decodes to the base address twice.
\<close>

theorem offset_table_truncates_distant_symbols:
  "(let vars = [CGlobal 0, CGlobal 1]; fa = (\<lambda>f. 0); ga = (\<lambda>g. if g = 1 then 2 ^ 32 else 0);
        (vbase, M') = emit_offset_table True (image ''text'' []) vars ''jl_gvar'' [];
        tab = table_values True fa ga (offset_entries True vars vbase)
    in map (eval_cexpr True fa ga) vars = [0, 2 ^ 32] \<and> tab = [2, 0, 0]
       \<and> decode_offsets True (eval_cexpr True fa ga vbase) tab = [0, 0])"
  by (simp add: emit_offset_table_def offset_entries_def table_values_def decode_offsets_def
      get_ptrdiff32_def wrap_def Let_def)

text \<open>
  Claim C4, amended. For a symbol list that is not empty and has fewer than \<open>2 ^ 32\<close>
  entries: on the 32-bit build always, and on the 64-bit build when every address differs
  from the first symbol's address by a value that a signed 32-bit number holds, decoding
  the emitted table (each stored delta added to the base) gives back the address list;
  the leading entry is the symbol count, the first stored delta is zero, and the base is
  the first symbol's address. The table is the initializer of the new global variable
  \<^verbatim>\<open><name>_offsets<suffix>\<close>, and the base is an alias of the first symbol.
\<close>

theorem offset_table_round_trip:
  assumes "vars \<noteq> []" and "length vars < 2 ^ 32"
    and "p \<longrightarrow> (\<forall>v \<in> set vars.
            - (2 ^ 31) \<le> sint (eval_cexpr p fa ga v - eval_cexpr p fa ga (hd vars))
            \<and> sint (eval_cexpr p fa ga v - eval_cexpr p fa ga (hd vars)) < 2 ^ 31)"
  shows "(let (vbase, M') = emit_offset_table p M vars name suffix;
              tab = table_values p fa ga (offset_entries p vars vbase);
              bas = eval_cexpr p fa ga vbase
          in decode_offsets p bas tab = map (eval_cexpr p fa ga) vars
             \<and> unat (hd tab) = length vars
             \<and> tab ! 1 = 0
             \<and> bas = eval_cexpr p fa ga (hd vars)
             \<and> m_globals M' = m_globals M
                  @ [hidden_table (new_gvar_addr M) (name @ ''_offsets'' @ suffix)
                       (offset_entries p vars vbase)]
             \<and> map a_aliasee (m_aliases M') = map a_aliasee (m_aliases M) @ [hd vars])"
proof -
  let ?n = "length vars"
  let ?ev = "eval_cexpr p fa ga"
  from assms(1,2) have n: "?n mod 2 ^ 32 = ?n" "0 < ?n" by auto
  have hd: "hd vars = vars ! 0" using assms(1) by (simp add: hd_conv_nth)
  obtain vbase M' where e: "emit_offset_table p M vars name suffix = (vbase, M')"
    by (cases "emit_offset_table p M vars name suffix")
  from e n have vbase: "vbase = CPtrToInt (vars ! 0)"
    and M': "M' = add_gvar (hidden_table (new_gvar_addr M) (name @ ''_offsets'' @ suffix)
                      (offset_entries p vars vbase))
                 (add_alias \<lparr>a_addr = new_alias_addr M, a_name = name @ ''_base'' @ suffix,
                           a_linkage = ExternalLinkage, a_visibility = HiddenVisibility,
                           a_aliasee = vars ! 0\<rparr> M)"
    by (auto simp: emit_offset_table_def Let_def add_alias_def add_gvar_def new_gvar_addr_def)
  have bas: "?ev vbase = ?ev (hd vars)" by (simp add: vbase hd)
  have ent: "offset_entries p vars vbase
      = CInt32 (of_nat ?n) # CInt32 0 # map (\<lambda>i. get_ptrdiff32 p (vars ! i) vbase) [1..<?n]"
    using n by (simp add: offset_entries_def Let_def)
  have cnt: "unat (of_nat ?n :: 32 word) = ?n"
    using assms(2) by (simp add: unat_of_nat)
  have each: "wrap p (?ev vbase + scast (ucast (?ev (get_ptrdiff32 p (vars ! i) vbase)) :: 32 word))
                = ?ev (vars ! i)" if "i < ?n" for i
  proof -
    from that have "vars ! i \<in> set vars" by simp
    with assms(3) have "p \<longrightarrow> - (2 ^ 31) \<le> sint (?ev (vars ! i) - ?ev vbase)
              \<and> sint (?ev (vars ! i) - ?ev vbase) < 2 ^ 31"
      unfolding bas by blast
    then show ?thesis by (rule decode_entry)
  qed
  have first: "wrap p (?ev vbase) = ?ev (vars ! 0)"
    using wrap_eval_cexpr[of p fa ga "vars ! 0"] by (simp add: vbase)
  have "decode_offsets p (?ev vbase) (table_values p fa ga (offset_entries p vars vbase))
      = ?ev (vars ! 0) # map (\<lambda>i. ?ev (vars ! i)) [1..<?n]"
    by (simp add: decode_offsets_def table_values_def ent first each comp_def)
  also have "\<dots> = map ?ev vars"
    by (subst (3) list_as_nth[OF assms(1)]) (simp add: comp_def)
  finally have dec: "decode_offsets p (?ev vbase)
      (table_values p fa ga (offset_entries p vars vbase)) = map ?ev vars" .
  have tab: "unat (hd (table_values p fa ga (offset_entries p vars vbase))) = ?n"
    "table_values p fa ga (offset_entries p vars vbase) ! 1 = 0"
    using cnt by (simp_all add: table_values_def ent ucast_ucast_32)
  from dec tab bas show ?thesis
    unfolding e Let_def prod.case
    by (simp add: M' add_gvar_def add_alias_def hd)
qed


theorem offset_table_round_trip_witness:
  "[CGlobal 0, CGlobal 1] \<noteq> [] \<and> length [CGlobal 0, CGlobal 1] < (2::nat) ^ 32
   \<and> - (2 ^ 31) \<le> sint (16 - 0 :: 64 word) \<and> sint (16 - 0 :: 64 word) < 2 ^ 31
   \<and> decode_offsets True 0
         (table_values True (\<lambda>f. 0) (\<lambda>g. 16 * of_nat g)
            (offset_entries True [CGlobal 0, CGlobal 1] (CPtrToInt (CGlobal 0))))
       = [0, 16]"
proof -
  let ?vars = "[CGlobal 0, CGlobal 1]"
  let ?fa = "\<lambda>f :: nat. 0 :: 64 word" and ?ga = "\<lambda>g :: nat. 16 * of_nat g :: 64 word"
  have h1: "?vars \<noteq> []" and h2: "length ?vars < (2::nat) ^ 32" by simp_all
  have r: "- (2 ^ 31) \<le> sint (16 - 0 :: 64 word)" "sint (16 - 0 :: 64 word) < 2 ^ 31"
    by simp_all
  then have h3: "True \<longrightarrow> (\<forall>v \<in> set ?vars.
            - (2 ^ 31) \<le> sint (eval_cexpr True ?fa ?ga v - eval_cexpr True ?fa ?ga (hd ?vars))
            \<and> sint (eval_cexpr True ?fa ?ga v - eval_cexpr True ?fa ?ga (hd ?vars)) < 2 ^ 31)"
    by (simp add: wrap_def)
  have e: "fst (emit_offset_table True (image ''text'' []) ?vars ''jl_gvar'' [])
             = CPtrToInt (CGlobal 0)"
    by (simp add: emit_offset_table_def Let_def)
  from offset_table_round_trip[OF h1 h2 h3, of "image ''text'' []" "''jl_gvar''" "[]"]
  have "decode_offsets True (eval_cexpr True ?fa ?ga (CPtrToInt (CGlobal 0)))
         (table_values True ?fa ?ga (offset_entries True ?vars (CPtrToInt (CGlobal 0))))
       = map (eval_cexpr True ?fa ?ga) ?vars"
    using e by (simp add: Let_def split_beta)
  then have "decode_offsets True 0
         (table_values True ?fa ?ga (offset_entries True ?vars (CPtrToInt (CGlobal 0))))
       = [0, 16]"
    by (simp add: wrap_def)
  with h1 h2 r show ?thesis by blast
qed

section \<open>Properties of the data-reference rewrite\<close>



section \<open>Properties of the relocation slots\<close>

text \<open>
  Claim C8 (the code at the failing input). The targets are the baseline and one
  subtarget, with no clone-all target. \<^verbatim>\<open>kernel\<close> and \<^verbatim>\<open>hot_caller\<close> have a loop and are
  cloned for the subtarget; \<^verbatim>\<open>cold_caller\<close> is not. \<^verbatim>\<open>kernel\<close> is called by both, so its
  calls need the indirection through a slot. The annotator sets \<^verbatim>\<open>check_relocs\<close> only in
  the clone-all branch: it marks \<^verbatim>\<open>kernel\<close> with its clone mask and not with
  \<^verbatim>\<open>julia.mv.reloc\<close>, \<^verbatim>\<open>prepare_slots\<close> creates no slot, and \<^verbatim>\<open>fix_inst_uses\<close> fails the
  assertion of \<^verbatim>\<open>get_reloc_slot\<close> when it comes to the calls of \<^verbatim>\<open>kernel\<close>.
\<close>

theorem subtarget_only_targets_miss_the_slot:
  "annotate_module_clones loop_specs (dispatch_image [])
     = dispatch_image [(''julia.mv.clones'', ''2'')]
   \<and> (\<exists>M'. runMultiVersioning build64 loop_specs
              (annotate_module_clones loop_specs (dispatch_image [])) False
            = Inl (Abort ''Missing relocation slot!'' M'))"
  unfolding annotate_dispatch_image runMultiVersioning_def ctx_dispatch_image
  by (simp add: pass_defs image_defs dispatch_image_def bit_two_one)

text \<open>
  The same run, on the annotated module written out: \<^verbatim>\<open>kernel\<close> carries no
  \<^verbatim>\<open>julia.mv.reloc\<close> mark when the pass starts.
\<close>

theorem subtarget_only_targets_miss_the_slot_witness:
  "\<not> hasFnAttribute (hd (m_funcs (annotate_module_clones loop_specs (dispatch_image []))))
        ''julia.mv.reloc''
   \<and> (\<exists>M'. runMultiVersioning build64 loop_specs
              (dispatch_image [(''julia.mv.clones'', ''2'')]) False
            = Inl (Abort ''Missing relocation slot!'' M'))"
proof -
  from subtarget_only_targets_miss_the_slot
  have a: "annotate_module_clones loop_specs (dispatch_image [])
             = dispatch_image [(''julia.mv.clones'', ''2'')]"
    and r: "\<exists>M'. runMultiVersioning build64 loop_specs
              (annotate_module_clones loop_specs (dispatch_image [])) False
            = Inl (Abort ''Missing relocation slot!'' M')"
    by blast+
  have "\<not> hasFnAttribute (hd (m_funcs (dispatch_image [(''julia.mv.clones'', ''2'')])))
          ''julia.mv.reloc''"
    by (simp add: dispatch_image_def hasFnAttribute_def)
  with r show ?thesis unfolding a by blast
qed




section \<open>Properties of the clone declarations\<close>

text \<open>
  Claim C5, as stated, fails in its last part. The declaration \<^verbatim>\<open>extern_fn\<close> carries the
  clone mask \<^verbatim>\<open>2\<close> when the annotator runs; the annotator leaves it as it is, the
  constructor keeps it in \<^verbatim>\<open>orig_funcs\<close> because of the attribute, and \<^verbatim>\<open>clone_decls\<close>
  creates the declaration \<^verbatim>\<open>extern_fn.1\<close> for it, beside those of the two definitions.
\<close>

theorem declaration_gets_clone_declaration:
  "f_body (mk_decl 3 ''extern_fn'' [(''julia.mv.clones'', ''2'')]) = None
   \<and> find_func (annotate_module_clones clone_all_specs
                  (import_image [(''julia.mv.clones'', ''2'')])) 3
       = Some (mk_decl 3 ''extern_fn'' [(''julia.mv.clones'', ''2'')])
   \<and> (\<exists>ctx M2 ctx' M'.
          CloneCtx clone_all_specs
            (annotate_module_clones clone_all_specs
               (import_image [(''julia.mv.clones'', ''2'')])) False = Inr (ctx, M2)
        \<and> c_orig_funcs ctx = [1, 2, 3]
        \<and> prepare_slots (ctx, M2) = Inr (ctx, M2)
        \<and> clone_decls (ctx, M2) = Inr (ctx', M')
        \<and> map f_name (m_funcs M')
            = [''kernel'', ''caller'', ''extern_fn'', ''kernel.1'', ''caller.1'', ''extern_fn.1''])"
proof -
  let ?I = "import_image [(''julia.mv.clones'', ''2'')]"
  define A where "A = ?I\<lparr>m_funcs :=
      [(mk_def 1 ''kernel'' True [])\<lparr>f_attrs := [(''julia.mv.fvar'', []), (''julia.mv.clones'', ''2'')]\<rparr>,
       (mk_def 2 ''caller'' False [1])\<lparr>f_attrs := [(''julia.mv.clones'', ''2'')]\<rparr>,
       mk_decl 3 ''extern_fn'' [(''julia.mv.clones'', ''2'')]]\<rparr>"
  define ctx where "ctx =
     \<lparr>c_specs = clone_all_specs,
      c_groups = [\<lparr>idx = 0, vmap = [], grp_clones = []\<rparr>, \<lparr>idx = 1, vmap = [], grp_clones = []\<rparr>],
      c_linearized = [TGroup 0, TGroup 1], c_fvars = [1], c_gvars = [],
      c_func_ids = [(1, 1)], c_orig_funcs = [1, 2, 3], c_cloned = [],
      c_gv_relocs = [], c_const_relocs = [], c_extern_relocs = [],
      c_allow_bad_fvars = False\<rparr>"
  define M2 where "M2 = A\<lparr>m_globals := [table 3 ''jl_fvar_idxs'' [CInt32 0],
                                       table 4 ''jl_gvar_idxs'' []]\<rparr>"
  have a: "annotate_module_clones clone_all_specs ?I = A"
    by (simp add: A_def annotate_defs image_defs init_leaves.simps)
  have b: "f_body (mk_decl 3 ''extern_fn'' [(''julia.mv.clones'', ''2'')]) = None"
    by (simp add: mk_decl_def)
  have f: "find_func A 3 = Some (mk_decl 3 ''extern_fn'' [(''julia.mv.clones'', ''2'')])"
    by (simp add: A_def find_func_def image_defs)
  have c: "CloneCtx clone_all_specs A False = Inr (ctx, M2)"
    by (simp add: A_def ctx_def M2_def ctx_defs image_defs)
  have o: "c_orig_funcs ctx = [1, 2, 3]" by (simp add: ctx_def)
  have p: "prepare_slots (ctx, M2) = Inr (ctx, M2)"
    by (simp add: A_def ctx_def M2_def pass_defs image_defs)
  obtain ctx' M' where d: "clone_decls (ctx, M2) = Inr (ctx', M')"
    and n: "map f_name (m_funcs M')
            = [''kernel'', ''caller'', ''extern_fn'', ''kernel.1'', ''caller.1'', ''extern_fn.1'']"
    by (simp add: A_def ctx_def M2_def pass_defs image_defs bit_two_one)
  have "\<exists>ctx M2 ctx' M'. CloneCtx clone_all_specs A False = Inr (ctx, M2)
        \<and> c_orig_funcs ctx = [1, 2, 3]
        \<and> prepare_slots (ctx, M2) = Inr (ctx, M2)
        \<and> clone_decls (ctx, M2) = Inr (ctx', M')
        \<and> map f_name (m_funcs M')
            = [''kernel'', ''caller'', ''extern_fn'', ''kernel.1'', ''caller.1'', ''extern_fn.1'']"
    apply (rule exI[of _ ctx], rule exI[of _ M2], rule exI[of _ ctx'], rule exI[of _ M'])
    using c o p d n by (intro conjI)
  with b f show ?thesis unfolding a by (intro conjI)
qed

text \<open>
  Claim C5, amended. Let \<open>i\<close> be a clone-all target, and \<open>F\<close> a function of a module whose
  functions have distinct addresses. If \<open>F\<close> has a body, the annotator leaves it with a
  clone mask whose bit \<open>i\<close> is set, and the turn of \<^verbatim>\<open>clone_decls\<close> for \<open>F\<close>, when it returns,
  appends to the module one declaration without a body per set bit of the mask, named
  after \<open>F\<close> and the target's index: \<open>i\<close> occurs exactly once among these targets. If \<open>F\<close> has
  no body, the annotator leaves it unchanged, and the turn of \<^verbatim>\<open>clone_decls\<close> creates nothing
  for it unless it already carries \<^verbatim>\<open>julia.mv.clones\<close>.
\<close>

theorem clone_all_clone_declarations:
  assumes "0 < i" and "i < length specs" and "flags (specs ! i) AND JL_TARGET_CLONE_ALL \<noteq> 0"
    and "distinct (map f_addr (m_funcs M))" and "F \<in> set (m_funcs M)"
    and "c_specs ctx = specs"
    and "find_func N (f_addr F) = find_func (annotate_module_clones specs M) (f_addr F)"
    and "clone_decls_of (f_addr F) (ctx, N) = Inr (ctx', N')"
  shows "(f_body F \<noteq> None \<longrightarrow>
           (\<exists>F' c new. find_func (annotate_module_clones specs M) (f_addr F) = Some F'
              \<and> clone_mask_of (length specs) F' = Some c \<and> bit c i
              \<and> count_list (clone_targets (length specs) c) i = 1
              \<and> m_funcs N' = m_funcs N @ new
              \<and> map f_name new
                  = map (\<lambda>k. f_name F @ ''.'' @ to_string k) (clone_targets (length specs) c)
              \<and> list_all (\<lambda>G. f_body G = None) new))
       \<and> (f_body F = None \<longrightarrow>
           find_func (annotate_module_clones specs M) (f_addr F) = Some F
           \<and> (\<not> hasFnAttribute F ''julia.mv.clones'' \<longrightarrow> N' = N \<and> ctx' = ctx))"
proof (intro conjI impI)
  assume body: "f_body F \<noteq> None"
  with assms(5) have "F \<in> set (defined_funcs M)" by (simp add: defined_funcs_def)
  then obtain j where j: "j < length (defined_funcs M)" "defined_funcs M ! j = F"
    by (auto simp: in_set_conv_nth)
  define c where "c = clones (annotate_targets (call_graph M) (map f_addr (defined_funcs M))
                    (fst (collect_infos (defined_funcs M) False)) specs) ! j"
  from annotate_definition[OF assms(4) j(1), of specs] obtain F' where
    F': "find_func (annotate_module_clones specs M) (f_addr F) = Some F'"
    "f_name F' = f_name F"
    "clone_mask_of (length specs) F'
       = (if c \<noteq> 0 then Some c else clone_mask_of (length specs) F)"
    "hasFnAttribute F' ''julia.mv.clones'' \<longleftrightarrow> c \<noteq> 0 \<or> hasFnAttribute F ''julia.mv.clones''"
    unfolding Let_def j(2) c_def[symmetric] by blast
  have bit: "bit c i"
    unfolding c_def using assms(1-3) j(1) by (simp add: bit_annotate_targets)
  have nz: "c \<noteq> 0"
  proof
    assume "c = 0"
    with bit show False by simp
  qed
  with F' have mask: "clone_mask_of (length specs) F' = Some c"
    and has: "hasFnAttribute F' ''julia.mv.clones''" by simp_all
  from assms(7) F'(1) have "find_func N (f_addr F) = Some F'" by simp
  from clone_decls_of_funcs[OF assms(8) this] has mask assms(6) F'(2)
  obtain new where new: "m_funcs N' = m_funcs N @ new"
    "map f_name new = map (\<lambda>k. f_name F @ ''.'' @ to_string k) (clone_targets (length specs) c)"
    "list_all (\<lambda>G. f_body G = None) new"
    by auto
  have "count_list (clone_targets (length specs) c) i = 1"
    using assms(1,2) bit by (simp add: count_clone_targets)
  with F'(1) mask bit new
  show "\<exists>F' c new. find_func (annotate_module_clones specs M) (f_addr F) = Some F'
              \<and> clone_mask_of (length specs) F' = Some c \<and> bit c i
              \<and> count_list (clone_targets (length specs) c) i = 1
              \<and> m_funcs N' = m_funcs N @ new
              \<and> map f_name new
                  = map (\<lambda>k. f_name F @ ''.'' @ to_string k) (clone_targets (length specs) c)
              \<and> list_all (\<lambda>G. f_body G = None) new"
    by blast
next
  assume "f_body F = None"
  from annotate_declaration[OF assms(4,5) this]
  show "find_func (annotate_module_clones specs M) (f_addr F) = Some F" .
next
  assume none: "f_body F = None" and no: "\<not> hasFnAttribute F ''julia.mv.clones''"
  from annotate_declaration[OF assms(4,5) none] assms(7)
  have "find_func N (f_addr F) = Some F" by simp
  from clone_decls_of_funcs[OF assms(8) this] no show "N' = N" by simp
next
  assume none: "f_body F = None" and no: "\<not> hasFnAttribute F ''julia.mv.clones''"
  from annotate_declaration[OF assms(4,5) none] assms(7)
  have "find_func N (f_addr F) = Some F" by simp
  from clone_decls_of_funcs[OF assms(8) this] no show "ctx' = ctx" by simp
qed

text \<open>
  The image under the clone-all target list: the turn of \<^verbatim>\<open>clone_decls\<close> for \<^verbatim>\<open>kernel\<close>
  appends the one declaration \<^verbatim>\<open>kernel.1\<close>.
\<close>

theorem clone_all_clone_declarations_witness:
  "(0::nat) < 1 \<and> 1 < length clone_all_specs
   \<and> flags (clone_all_specs ! 1) AND JL_TARGET_CLONE_ALL \<noteq> 0
   \<and> distinct (map f_addr (m_funcs (image ''text'' [])))
   \<and> (\<exists>ctx N ctx' N'.
         CloneCtx clone_all_specs (annotate_module_clones clone_all_specs (image ''text'' [])) False
           = Inr (ctx, N)
       \<and> clone_decls_of 1 (ctx, N) = Inr (ctx', N')
       \<and> map f_name (m_funcs N') = [''kernel'', ''caller'', ''kernel.1'']
       \<and> count_list (clone_targets 2 2) 1 = 1)"
proof -
  let ?I = "image ''text'' []"
  let ?K = "(mk_def 1 ''kernel'' True [])\<lparr>f_attrs := []\<rparr>"
  let ?K' = "(mk_def 1 ''kernel'' True [])
               \<lparr>f_attrs := [(''julia.mv.fvar'', []), (''julia.mv.clones'', ''2'')]\<rparr>"
  define A where "A = ?I\<lparr>m_funcs :=
      [?K', (mk_def 2 ''caller'' False [1])\<lparr>f_attrs := [(''julia.mv.clones'', ''2'')]\<rparr>]\<rparr>"
  define ctx where "ctx =
     \<lparr>c_specs = clone_all_specs,
      c_groups = [\<lparr>idx = 0, vmap = [], grp_clones = []\<rparr>, \<lparr>idx = 1, vmap = [], grp_clones = []\<rparr>],
      c_linearized = [TGroup 0, TGroup 1], c_fvars = [1], c_gvars = [],
      c_func_ids = [(1, 1)], c_orig_funcs = [1, 2], c_cloned = [],
      c_gv_relocs = [], c_const_relocs = [], c_extern_relocs = [],
      c_allow_bad_fvars = False\<rparr>"
  define N where "N = A\<lparr>m_globals := [table 3 ''jl_fvar_idxs'' [CInt32 0],
                                     table 4 ''jl_gvar_idxs'' []]\<rparr>"
  have a: "annotate_module_clones clone_all_specs ?I = A"
    by (simp add: A_def annotate_defs image_defs init_leaves.simps)
  have h: "(0::nat) < 1" "1 < length clone_all_specs"
    "flags (clone_all_specs ! 1) AND JL_TARGET_CLONE_ALL \<noteq> 0"
    "distinct (map f_addr (m_funcs ?I))" "?K \<in> set (m_funcs ?I)"
    and body: "f_body ?K \<noteq> None" and addr: "f_addr ?K = 1" and name: "f_name ?K = ''kernel''"
    by (simp_all add: image_defs)
  have c: "CloneCtx clone_all_specs A False = Inr (ctx, N)"
    by (simp add: A_def ctx_def N_def ctx_defs image_defs)
  have h6: "c_specs ctx = clone_all_specs" by (simp add: ctx_def)
  have fA: "find_func A 1 = Some ?K'" by (simp add: A_def find_func_def image_defs)
  have h7: "find_func N (f_addr ?K) = find_func (annotate_module_clones clone_all_specs ?I) (f_addr ?K)"
    unfolding a addr by (simp add: N_def find_func_def)
  obtain ctx' N' where d: "clone_decls_of 1 (ctx, N) = Inr (ctx', N')"
    by (simp add: A_def ctx_def N_def pass_defs image_defs bit_two_one)
  have m: "clone_mask_of (length clone_all_specs) ?K' = Some 2"
    by (simp add: pass_defs image_defs)
  have t: "clone_targets (length clone_all_specs) 2 = [1]"
    by (simp add: clone_targets_def clone_all_specs_def upt_rec bit_0)
  have d': "clone_decls_of (f_addr ?K) (ctx, N) = Inr (ctx', N')"
    using d by (simp add: mk_def_def)
  from clone_all_clone_declarations[OF h(1-5) h6 h7 d'] body
  obtain F' k new where r: "find_func (annotate_module_clones clone_all_specs ?I) (f_addr ?K) = Some F'"
    "clone_mask_of (length clone_all_specs) F' = Some k"
    "count_list (clone_targets (length clone_all_specs) k) 1 = 1"
    "m_funcs N' = m_funcs N @ new"
    "map f_name new = map (\<lambda>j. f_name ?K @ ''.'' @ to_string j)
                        (clone_targets (length clone_all_specs) k)"
    by blast
  from r(1) fA have "F' = ?K'" unfolding a addr by simp
  with r(2) m have k: "k = 2" by simp
  have one: "to_string (Suc 0) = ''1''" by (simp add: to_string.simps)
  from r(5) have "map f_name new = [''kernel.1'']"
    unfolding k t name by (simp add: one)
  with r(4) have n: "map f_name (m_funcs N') = [''kernel'', ''caller'', ''kernel.1'']"
    by (simp add: N_def A_def image_defs)
  have l: "length clone_all_specs = 2" by (simp add: clone_all_specs_def)
  from r(3) have cnt: "count_list (clone_targets 2 2) 1 = 1"
    unfolding k l .
  have "\<exists>ctx N ctx' N'.
         CloneCtx clone_all_specs A False = Inr (ctx, N)
       \<and> clone_decls_of 1 (ctx, N) = Inr (ctx', N')
       \<and> map f_name (m_funcs N') = [''kernel'', ''caller'', ''kernel.1'']
       \<and> count_list (clone_targets 2 2) 1 = 1"
    apply (rule exI[of _ ctx], rule exI[of _ N], rule exI[of _ ctx'], rule exI[of _ N'])
    using c d n cnt by (intro conjI)
  with h(1-4) show ?thesis unfolding a by (intro conjI)
qed

text \<open>
  Claim C6. Let \<open>t\<close> be a target that is not clone-all, and \<open>F\<close> the \<open>j\<close>-th definition of a
  module whose functions have distinct addresses. If the analyzer's mask of \<open>F\<close> does not
  meet the flags of \<open>t\<close>, the closure does not add \<open>F\<close> to the seed set, and bit \<open>t\<close> is not
  set in a clone mask that \<open>F\<close> already carries, then bit \<open>t\<close> is not set in the clone mask
  that the annotator leaves on \<open>F\<close>, and the turn of \<^verbatim>\<open>clone_decls\<close> for \<open>F\<close>, when it returns,
  has appended declarations for some targets \<open>ks\<close> only, with \<open>t\<close> not among them.
\<close>

theorem unselected_function_gets_no_clone:
  assumes "0 < t" and "t < length specs" and "flags (specs ! t) AND JL_TARGET_CLONE_ALL = 0"
    and "distinct (map f_addr (m_funcs M))"
    and "j < length (defined_funcs M)" and "F = defined_funcs M ! j"
    and "origs = map f_addr (defined_funcs M)"
    and "infos = fst (collect_infos (defined_funcs M) False)"
    and "seeds = seed_set origs infos (flags (specs ! t) AND clone_mask)"
    and "infos ! j AND (flags (specs ! t) AND clone_mask) = 0"
    and "f_addr F \<notin> set (clone_closure (call_graph M) seeds) - set seeds"
    and "\<forall>c. clone_mask_of (length specs) F = Some c \<longrightarrow> \<not> bit c t"
    and "c_specs ctx = specs"
    and "find_func N (f_addr F) = find_func (annotate_module_clones specs M) (f_addr F)"
    and "clone_decls_of (f_addr F) (ctx, N) = Inr (ctx', N')"
  shows "\<exists>F' ks new. find_func (annotate_module_clones specs M) (f_addr F) = Some F'
           \<and> (\<forall>c. clone_mask_of (length specs) F' = Some c \<longrightarrow> \<not> bit c t)
           \<and> t \<notin> set ks \<and> m_funcs N' = m_funcs N @ new
           \<and> map f_name new = map (\<lambda>k. f_name F @ ''.'' @ to_string k) ks"
proof -
  let ?flag = "flags (specs ! t) AND clone_mask"
  have len: "length infos = length origs"
    by (simp add: assms(7,8) length_infos_defined)
  have jo: "j < length origs" and oj: "origs ! j = f_addr F"
    using assms(5,6) by (simp_all add: assms(7))
  have dorigs: "distinct origs"
    unfolding assms(7) defined_funcs_def using assms(4) by (rule distinct_map_filter)
  have notseed: "f_addr F \<notin> set seeds"
  proof
    assume "f_addr F \<in> set seeds"
    then obtain k where k: "k < length origs" "origs ! k = f_addr F" "infos ! k AND ?flag \<noteq> 0"
      unfolding assms(9) set_seed_set_nth[OF len] by auto
    from k(2) oj have "origs ! k = origs ! j" by simp
    with k(1) jo dorigs have "k = j" by (simp add: nth_eq_iff_index_eq)
    with k(3) assms(10) show False by simp
  qed
  with assms(11) have notR: "origs ! j \<notin> set (target_clone_set (call_graph M) origs infos (specs ! t))"
    by (simp add: target_clone_set_def assms(9)[symmetric] oj)
  define c where "c = clones (annotate_targets (call_graph M) origs infos specs) ! j"
  have nobit: "\<not> bit c t"
    unfolding c_def using assms(3) notR by (simp add: bit_annotate_targets[OF jo])
  from annotate_definition[OF assms(4,5), of specs] obtain F' where
    F': "find_func (annotate_module_clones specs M) (f_addr F) = Some F'"
    "f_name F' = f_name F"
    "clone_mask_of (length specs) F'
       = (if c \<noteq> 0 then Some c else clone_mask_of (length specs) F)"
    unfolding Let_def assms(6)[symmetric] assms(7)[symmetric] assms(8)[symmetric] c_def[symmetric]
    by blast
  have mask: "\<forall>k. clone_mask_of (length specs) F' = Some k \<longrightarrow> \<not> bit k t"
    using F'(3) nobit assms(12) by (auto split: if_splits)
  from assms(14) F'(1) have fN: "find_func N (f_addr F) = Some F'" by simp
  note cd = clone_decls_of_funcs[OF assms(15) fN, unfolded assms(13) F'(2)]
  show ?thesis
  proof (cases "hasFnAttribute F' ''julia.mv.clones''")
    case False
    with cd have "N' = N" by simp
    then have "t \<notin> set [] \<and> m_funcs N' = m_funcs N @ []
           \<and> map f_name [] = map (\<lambda>k. f_name F @ ''.'' @ to_string k) []"
      by simp
    with F'(1) mask show ?thesis by blast
  next
    case True
    with cd obtain k new where k: "clone_mask_of (length specs) F' = Some k"
      "m_funcs N' = m_funcs N @ new"
      "map f_name new = map (\<lambda>i. f_name F @ ''.'' @ to_string i) (clone_targets (length specs) k)"
      by blast
    from mask k(1) have "t \<notin> set (clone_targets (length specs) k)"
      by (simp add: clone_targets_def)
    with F'(1) mask k(2,3) show ?thesis by blast
  qed
qed

text \<open>
  The subtarget of \<open>loop_specs\<close> and \<^verbatim>\<open>cold_caller\<close>, the third definition of
  \<open>dispatch_image\<close>: it has no loop and the closure does not reach it; the turn of
  \<^verbatim>\<open>clone_decls\<close> for it leaves the module as it is.
\<close>

theorem unselected_function_gets_no_clone_witness:
  "(0::nat) < 1 \<and> 1 < length loop_specs
   \<and> flags (loop_specs ! 1) AND JL_TARGET_CLONE_ALL = 0
   \<and> distinct (map f_addr (m_funcs (dispatch_image [])))
   \<and> defined_funcs (dispatch_image []) ! 2 = mk_def 3 ''cold_caller'' False [1]
   \<and> fst (collect_infos (defined_funcs (dispatch_image [])) False) ! 2
        AND (flags (loop_specs ! 1) AND clone_mask) = 0
   \<and> clone_closure (call_graph (dispatch_image [])) [1, 2] = [1, 2]
   \<and> (\<exists>ctx N. CloneCtx loop_specs (annotate_module_clones loop_specs (dispatch_image [])) False
                  = Inr (ctx, N)
          \<and> clone_decls_of 3 (ctx, N) = Inr (ctx, N)
          \<and> (\<exists>F' ks new. find_func (annotate_module_clones loop_specs (dispatch_image [])) 3 = Some F'
                \<and> 1 \<notin> set ks \<and> m_funcs N = m_funcs N @ new
                \<and> map f_name new = map (\<lambda>k. ''cold_caller'' @ ''.'' @ to_string k) ks))"
proof -
  let ?M = "dispatch_image []"
  let ?F = "mk_def 3 ''cold_caller'' False [1]"
  define ctx where "ctx =
     \<lparr>c_specs = loop_specs,
      c_groups = [\<lparr>idx = 0, vmap = [], grp_clones = [\<lparr>idx = 1, vmap = []\<rparr>]\<rparr>],
      c_linearized = [TGroup 0, TClone 0 0], c_fvars = [1], c_gvars = [],
      c_func_ids = [(1, 1)], c_orig_funcs = [1, 2, 3], c_cloned = [],
      c_gv_relocs = [], c_const_relocs = [], c_extern_relocs = [],
      c_allow_bad_fvars = False\<rparr>"
  define N where "N = (dispatch_image [(''julia.mv.clones'', ''2'')])
                        \<lparr>m_globals := [table 3 ''jl_fvar_idxs'' [CInt32 0],
                                       table 4 ''jl_gvar_idxs'' []]\<rparr>"
  have h: "(0::nat) < 1" "1 < length loop_specs"
    "flags (loop_specs ! 1) AND JL_TARGET_CLONE_ALL = 0"
    "distinct (map f_addr (m_funcs ?M))" "2 < length (defined_funcs ?M)"
    and h6: "?F = defined_funcs ?M ! 2"
    by (simp_all add: image_defs dispatch_image_def defined_funcs_def)
  have o: "map f_addr (defined_funcs ?M) = [1, 2, 3]"
    by (simp add: image_defs dispatch_image_def defined_funcs_def)
  have i: "fst (collect_infos (defined_funcs ?M) False)
             = [JL_TARGET_CLONE_LOOP, JL_TARGET_CLONE_LOOP, 0]"
    by (simp add: image_defs dispatch_image_def defined_funcs_def collect_func_info_def
        scan_inst_def scan_call_def)
  have fl: "flags (loop_specs ! 1) AND clone_mask = JL_TARGET_CLONE_LOOP"
    by (simp add: image_defs)
  have s: "seed_set [1, 2, 3] [JL_TARGET_CLONE_LOOP, JL_TARGET_CLONE_LOOP, 0] JL_TARGET_CLONE_LOOP
             = [1, 2]"
    by (simp add: seed_set_def set_insert_def JL_TARGET_CLONE_LOOP_def)
  have cl: "clone_closure (call_graph ?M) [1, 2] = [1, 2]"
    by (simp add: clone_closure_def call_graph_def cg_node_def calling_clone_def set_insert_def
        image_defs dispatch_image_def)
  have h7: "[1, 2, 3] = map f_addr (defined_funcs ?M)" by (simp add: o)
  have h8: "[JL_TARGET_CLONE_LOOP, JL_TARGET_CLONE_LOOP, 0]
              = fst (collect_infos (defined_funcs ?M) False)" by (simp add: i)
  have h9: "[1, 2] = seed_set [1, 2, 3] [JL_TARGET_CLONE_LOOP, JL_TARGET_CLONE_LOOP, 0]
                       (flags (loop_specs ! 1) AND clone_mask)"
    unfolding fl s ..
  have h10: "[JL_TARGET_CLONE_LOOP, JL_TARGET_CLONE_LOOP, 0] ! 2
               AND (flags (loop_specs ! 1) AND clone_mask) = 0"
    by simp
  have h11: "f_addr ?F \<notin> set (clone_closure (call_graph ?M) [1, 2]) - set [1, 2]"
    unfolding cl by (simp add: mk_def_def)
  have h12: "\<forall>c. clone_mask_of (length loop_specs) ?F = Some c \<longrightarrow> \<not> bit c 1"
    by (simp add: clone_mask_of_def mk_def_def)
  have h13: "c_specs ctx = loop_specs" by (simp add: ctx_def)
  have c: "CloneCtx loop_specs (annotate_module_clones loop_specs ?M) False = Inr (ctx, N)"
    unfolding annotate_dispatch_image ctx_dispatch_image by (simp add: ctx_def N_def)
  have h14: "find_func N (f_addr ?F) = find_func (annotate_module_clones loop_specs ?M) (f_addr ?F)"
    unfolding annotate_dispatch_image by (simp add: N_def find_func_def)
  have d: "clone_decls_of 3 (ctx, N) = Inr (ctx, N)"
    by (simp add: clone_decls_of_def find_func_def hasFnAttribute_def N_def dispatch_image_def
        mk_def_def)
  have h15: "clone_decls_of (f_addr ?F) (ctx, N) = Inr (ctx, N)"
    using d by (simp add: mk_def_def)
  from unselected_function_gets_no_clone[OF h(1-5) h6 h7 h8 h9 h10 h11 h12 h13 h14 h15]
  obtain F' ks new where r: "find_func (annotate_module_clones loop_specs ?M) (f_addr ?F) = Some F'"
    "1 \<notin> set ks" "m_funcs N = m_funcs N @ new"
    "map f_name new = map (\<lambda>k. f_name ?F @ ''.'' @ to_string k) ks"
    by blast
  have e: "f_addr ?F = 3" "f_name ?F = ''cold_caller''" by (simp_all add: mk_def_def)
  from r have "\<exists>F' ks new. find_func (annotate_module_clones loop_specs ?M) 3 = Some F'
                \<and> 1 \<notin> set ks \<and> m_funcs N = m_funcs N @ new
                \<and> map f_name new = map (\<lambda>k. ''cold_caller'' @ ''.'' @ to_string k) ks"
    unfolding e by blast
  with c d
  have "\<exists>ctx N. CloneCtx loop_specs (annotate_module_clones loop_specs ?M) False = Inr (ctx, N)
          \<and> clone_decls_of 3 (ctx, N) = Inr (ctx, N)
          \<and> (\<exists>F' ks new. find_func (annotate_module_clones loop_specs ?M) 3 = Some F'
                \<and> 1 \<notin> set ks \<and> m_funcs N = m_funcs N @ new
                \<and> map f_name new = map (\<lambda>k. ''cold_caller'' @ ''.'' @ to_string k) ks)"
    by blast
  moreover from i fl have "fst (collect_infos (defined_funcs ?M) False) ! 2
        AND (flags (loop_specs ! 1) AND clone_mask) = 0"
    by simp
  ultimately show ?thesis using h(1-4) h6[symmetric] cl by (intro conjI)
qed

end
